theory Spec2Isabelle
  imports Main "HOL-Library.AList"
begin

section \<open>JavaScript values used by the extension\<close>

text \<open>
  Instants and durations are millisecond counts (\<^verbatim>\<open>Date.now()\<close>, \<^verbatim>\<open>getTime()\<close>); the
  source only adds, subtracts and compares them, which is exact on the integers a
  JavaScript number holds, so they are modelled as \<^typ>\<open>int\<close>. A property that may be
  \<^verbatim>\<open>null\<close> or \<^verbatim>\<open>undefined\<close> is an \<^typ>\<open>'a option\<close>. The source tests such
  properties by truthiness: \<^verbatim>\<open>null\<close>, \<^verbatim>\<open>undefined\<close>, \<^verbatim>\<open>0\<close> and the empty string
  are falsy.
\<close>

definition truthy_num :: "int option \<Rightarrow> bool" where
  "truthy_num v = (case v of None \<Rightarrow> False | Some n \<Rightarrow> n \<noteq> 0)"

definition truthy_str :: "string option \<Rightarrow> bool" where
  "truthy_str v = (case v of None \<Rightarrow> False | Some s \<Rightarrow> s \<noteq> [])"

text \<open>\<^verbatim>\<open>v || d\<close> on a number that may be missing, and \<^verbatim>\<open>v || null\<close>.\<close>

definition or_num :: "int option \<Rightarrow> int \<Rightarrow> int" where
  "or_num v d = (case v of None \<Rightarrow> d | Some n \<Rightarrow> if n \<noteq> 0 then n else d)"

definition or_null :: "int option \<Rightarrow> int option" where
  "or_null v = (case v of None \<Rightarrow> None | Some n \<Rightarrow> if n \<noteq> 0 then Some n else None)"

text \<open>
  \<^verbatim>\<open>parseInt(s, 10)\<close>: leading white space is skipped, one sign is read, then the
  longest run of decimal digits; with no digit the result is \<^verbatim>\<open>NaN\<close>, here
  \<^term>\<open>None\<close>. Every comparison with \<^verbatim>\<open>NaN\<close> is false. Only the ASCII white space
  characters are modelled.
\<close>

definition is_ws :: "char \<Rightarrow> bool" where
  "is_ws c = (c \<in> set [CHR 0x09, CHR 0x0A, CHR 0x0B, CHR 0x0C, CHR 0x0D, CHR 0x20])"

definition is_digit :: "char \<Rightarrow> bool" where
  "is_digit c = (48 \<le> (of_char c :: nat) \<and> (of_char c :: nat) \<le> 57)"

definition digit_val :: "char \<Rightarrow> int" where
  "digit_val c = int (of_char c) - 48"

definition parseInt10 :: "string \<Rightarrow> int option" where
  "parseInt10 s =
     (let s1 = dropWhile is_ws s;
          sgn_rest = (case s1 of
                        [] \<Rightarrow> (1, s1)
                      | c # r \<Rightarrow> if c = CHR ''-'' then (- 1, r)
                                 else if c = CHR ''+'' then (1, r) else (1, s1));
          z = takeWhile is_digit (snd sgn_rest)
      in if z = [] then None
         else Some (fst sgn_rest * foldl (\<lambda>a c. a * 10 + digit_val c) 0 z))"

section \<open>Timer entries\<close>

text \<open>
  The value stored under a task id in \<^verbatim>\<open>activeTimers\<close>, in the popup's memory and in
  \<^verbatim>\<open>chrome.storage.local\<close>. Entries written by an earlier version carry only
  \<^verbatim>\<open>startTime\<close>, which is why every reader defaults the other two properties. The
  popup's in-memory entry also holds \<^verbatim>\<open>intervalId\<close>, the handle of the display
  refresh; it and the DOM updates are rendering and are left out.
\<close>

record timer_data =
  startTime :: int
  pausedDuration :: "int option"
  pausedAt :: "int option"

type_synonym timers = "(string \<times> timer_data) list"

text \<open>\<^verbatim>\<open>getEffectiveElapsed(timerData)\<close>; \<open>now\<close> is the value of its \<^verbatim>\<open>Date.now()\<close>.\<close>

definition getEffectiveElapsed :: "int \<Rightarrow> timer_data \<Rightarrow> int" where
  "getEffectiveElapsed now timerData =
     (let elapsed = now - startTime timerData;
          elapsed = elapsed - or_num (pausedDuration timerData) 0;
          elapsed = (case pausedAt timerData of
                       None \<Rightarrow> elapsed
                     | Some p \<Rightarrow> if p \<noteq> 0 then elapsed - (now - p) else elapsed)
      in max 0 elapsed)"

text \<open>
  The Timer Entry of the specification's data model and its effective elapsed time, from
  the specification's words: \<open>now - start_time - paused_duration -
  (paused_at ? now - paused_at : 0)\<close>, clamped to at least 0.
\<close>

record timer_entry =
  start_time :: int
  paused_duration :: int
  paused_at :: "int option"

definition effective_elapsed_spec :: "timer_entry \<Rightarrow> int \<Rightarrow> int" where
  "effective_elapsed_spec e now =
     max 0 (now - start_time e - paused_duration e
              - (case paused_at e of Some p \<Rightarrow> now - p | None \<Rightarrow> 0))"

text \<open>
  The entry a stored value stands for. It is the reading every consumer in the source
  applies (\<^verbatim>\<open>timerData.pausedDuration || 0\<close>, \<^verbatim>\<open>timerData.pausedAt || null\<close> in
  \<^verbatim>\<open>loadPersistedTimers\<close> and \<^verbatim>\<open>persistTimerState\<close>): a falsy \<^verbatim>\<open>pausedAt\<close> is an
  unset one.
\<close>

definition entry_of :: "timer_data \<Rightarrow> timer_entry" where
  "entry_of timerData =
     \<lparr>start_time = startTime timerData,
      paused_duration = or_num (pausedDuration timerData) 0,
      paused_at = or_null (pausedAt timerData)\<rparr>"

text \<open>
  An entry is consistent at an instant when its pauses lie inside its life so far: the
  accumulated pause is not negative and, added to the start, does not pass the start of
  the current pause (or the instant itself when the entry runs), which is not in the
  future.
\<close>

definition consistent_at :: "int \<Rightarrow> timer_entry \<Rightarrow> bool" where
  "consistent_at now e =
     (0 \<le> paused_duration e \<and>
      (case paused_at e of
         None \<Rightarrow> start_time e + paused_duration e \<le> now
       | Some p \<Rightarrow> start_time e + paused_duration e \<le> p \<and> p \<le> now))"

section \<open>State and host\<close>

text \<open>
  Messages of \<^verbatim>\<open>chrome.runtime.sendMessage\<close>, by their \<^verbatim>\<open>type\<close>; \<^verbatim>\<open>TIMER_STARTED\<close>
  carries the task id when \<^verbatim>\<open>startTimer\<close> sends it.
\<close>

datatype message =
  SETTINGS_UPDATED | UPDATE_BADGE | GET_TASKS | TIMER_STARTED "string option" | TIMER_STOPPED

text \<open>The body of the time-log request, and the requests the popup issues.\<close>

record time_body =
  duration :: int
  start :: int
  end' :: int

datatype request =
  PostTime string time_body
  | PutStatusClosed string
  | PutDueDate string int

text \<open>
  How a \<^verbatim>\<open>fetch\<close> whose body the caller does not read ends: the promise rejects (a
  network failure, which \<^verbatim>\<open>await\<close> throws), or it resolves with \<^verbatim>\<open>response.ok\<close>
  true or false. A \<^verbatim>\<open>fetch\<close> whose JSON is read ends in one of three ways.
\<close>

datatype fetch_result = Rejected | Responded bool

datatype 'a fetched = Failed | NotOk | Json 'a

record task =
  id' :: string
  name :: string
  due_date :: "string option"
  teamName :: "string option"

record team =
  team_id :: string
  team_name :: string

text \<open>The query of the task listing: team, assignee, \<^verbatim>\<open>due_date_gt\<close>, \<^verbatim>\<open>due_date_lt\<close>.\<close>

record task_query =
  q_team :: string
  q_assignee :: string
  due_date_gt :: "int option"
  due_date_lt :: int

record features =
  overdue :: bool
  dueTime :: bool
  timeTracked :: bool
  completedCount :: bool
  grouping :: bool
  badge :: bool
  timeTracking :: bool
  snooze :: bool
  filters :: bool
  notifications :: bool
  idleDetection :: "bool option"

record settings =
  features :: features
  notificationMinutes :: "int option"
  idleThresholdMinutes :: "int option"

text \<open>\<^verbatim>\<open>defaultSettings\<close> of background.js: it has no idle properties.\<close>

definition defaultSettings :: settings where
  "defaultSettings =
     \<lparr>features = \<lparr>overdue = False, dueTime = True, timeTracked = True,
                   completedCount = True, grouping = False, badge = True,
                   timeTracking = True, snooze = True, filters = True,
                   notifications = False, idleDetection = None\<rparr>,
      notificationMinutes = Some 15,
      idleThresholdMinutes = None\<rparr>"

text \<open>
  The badge: empty text, the decimal count on violet, the recording dot on red, the
  pause sign on orange.
\<close>

datatype badge_display = BadgeEmpty | BadgeCount nat | BadgeRecording | BadgePaused

record notification =
  notificationId :: string
  taskName :: string
  minutes :: int

text \<open>
  Everything the handlers read and write: the two storage buckets, the globals of
  popup.js (\<^verbatim>\<open>activeTimers\<close>, \<^verbatim>\<open>allTasks\<close>) and of background.js (\<^verbatim>\<open>notifiedTasks\<close>,
  \<^verbatim>\<open>isTimerRecording\<close>), and what was handed to the browser and the remote service.
  \<^verbatim>\<open>notifiedTasks\<close> is a JavaScript \<^verbatim>\<open>Set\<close>: a list in insertion order.
  A handler is one step from world to world: what other handlers do while it awaits a
  request is not part of the step.
\<close>

record world =
  local_activeTimers :: "timers option"
  sync_clickupApiKey :: "string option"
  sync_settings :: "settings option"
  activeTimers :: timers
  allTasks :: "task list"
  notifiedTasks :: "string list"
  isTimerRecording :: bool
  badge_shown :: badge_display
  detectionInterval :: "nat option"
  alarms :: "(string \<times> nat) list"
  created :: "notification list"
  requests :: "request list"
  messages :: "message list"
  console :: "string list"

text \<open>
  What the host answers while one handler runs: the clock (\<open>date_now\<close> is the handler's
  first \<^verbatim>\<open>Date.now()\<close>, \<open>date_now_end\<close> the later one that \<^verbatim>\<open>stopTimer\<close> puts in
  \<^verbatim>\<open>end\<close>), the local day (\<open>today_start\<close> is \<^verbatim>\<open>getTime()\<close> after
  \<^verbatim>\<open>setHours(0, 0, 0, 0)\<close>, \<open>today_end\<close> after \<^verbatim>\<open>setHours(23, 59, 59, 999)\<close>), the
  remote service's answers, and whether storage reads and writes succeed.
\<close>

record host =
  date_now :: int
  date_now_end :: int
  today_start :: int
  today_end :: int
  user_response :: "string fetched"
  team_response :: "team list option fetched"
  task_response :: "task_query \<Rightarrow> task list option fetched"
  write_response :: fetch_result
  storage_get_ok :: bool
  storage_set_ok :: bool

section \<open>popup.js: the timer registry\<close>

text \<open>
  The popup script (the part of \<^verbatim>\<open>src/unnamed/part_002\<close> that declares
  \<^verbatim>\<open>activeTimers\<close>).
\<close>

definition timersToSave :: "timers \<Rightarrow> timers" where
  "timersToSave ts =
     map (\<lambda>(taskId, timerData).
            (taskId, \<lparr>startTime = startTime timerData,
                      pausedDuration = Some (or_num (pausedDuration timerData) 0),
                      pausedAt = or_null (pausedAt timerData)\<rparr>)) ts"

definition persistTimerState :: "host \<Rightarrow> world \<Rightarrow> world" where
  "persistTimerState h w =
     (if storage_set_ok h
      then w\<lparr>local_activeTimers := Some (timersToSave (activeTimers w))\<rparr>
      else w\<lparr>console := console w @ [''Error persisting timer state:'']\<rparr>)"

definition loadPersistedTimers :: "host \<Rightarrow> world \<Rightarrow> world" where
  "loadPersistedTimers h w =
     (if storage_get_ok h
      then let persistedTimers = (case local_activeTimers w of None \<Rightarrow> [] | Some ts \<Rightarrow> ts)
           in w\<lparr>activeTimers :=
                  foldl (\<lambda>m (taskId, timerData).
                           AList.update taskId
                             \<lparr>startTime = startTime timerData,
                              pausedDuration = Some (or_num (pausedDuration timerData) 0),
                              pausedAt = or_null (pausedAt timerData)\<rparr> m)
                        (activeTimers w) persistedTimers\<rparr>
      else w\<lparr>console := console w @ [''Error loading persisted timers:'']\<rparr>)"

definition startTimer :: "string \<Rightarrow> host \<Rightarrow> world \<Rightarrow> world" where
  "startTimer taskId h w =
     (let w1 = w\<lparr>activeTimers :=
                   AList.update taskId
                     \<lparr>startTime = date_now h, pausedDuration = Some 0, pausedAt = None\<rparr>
                     (activeTimers w)\<rparr>;
          w2 = persistTimerState h w1
      in w2\<lparr>messages := messages w2 @ [TIMER_STARTED (Some taskId)]\<rparr>)"

text \<open>
  \<^verbatim>\<open>stopTimer\<close>. The request is built and handed to \<^verbatim>\<open>fetch\<close> before anything is
  awaited; a rejection is caught and logged, and the response is not looked at. The
  reload of the task list that ends the function is rendering.
\<close>

definition stopTimer :: "string \<Rightarrow> host \<Rightarrow> world \<Rightarrow> world" where
  "stopTimer taskId h w =
     (case map_of (activeTimers w) taskId of
        None \<Rightarrow> w
      | Some timer \<Rightarrow>
          let effectiveElapsed = getEffectiveElapsed (date_now h) timer;
              w1 = w\<lparr>requests := requests w @
                      [PostTime taskId \<lparr>duration = effectiveElapsed,
                                        start = startTime timer,
                                        end' = date_now_end h\<rparr>]\<rparr>;
              w2 = (case write_response h of
                      Rejected \<Rightarrow> w1\<lparr>console := console w1 @ [''Error logging time:'']\<rparr>
                    | Responded ok \<Rightarrow> w1);
              w3 = w2\<lparr>activeTimers := AList.delete taskId (activeTimers w2)\<rparr>;
              w4 = persistTimerState h w3;
              hasActiveTimers = (activeTimers w4 \<noteq> [])
          in w4\<lparr>messages := messages w4 @
                  [if hasActiveTimers then TIMER_STARTED None else TIMER_STOPPED]\<rparr>)"

definition toggleTimer :: "string \<Rightarrow> host \<Rightarrow> world \<Rightarrow> world" where
  "toggleTimer taskId h w =
     (case map_of (activeTimers w) taskId of
        Some timer \<Rightarrow> stopTimer taskId h w
      | None \<Rightarrow> startTimer taskId h w)"

text \<open>
  \<^verbatim>\<open>completeTask\<close>. When the status request rejects, the \<^verbatim>\<open>catch\<close> block logs and
  nothing else changes. Otherwise the block under the comment ``Stop timer if running''
  runs, and after the two timeouts the task leaves \<^verbatim>\<open>allTasks\<close>.
\<close>

definition completeTask :: "string \<Rightarrow> host \<Rightarrow> world \<Rightarrow> world" where
  "completeTask taskId h w =
     (let w1 = w\<lparr>requests := requests w @ [PutStatusClosed taskId]\<rparr>
      in case write_response h of
           Rejected \<Rightarrow> w1\<lparr>console := console w1 @ [''Error completing task:'']\<rparr>
         | Responded ok \<Rightarrow>
             let w2 = (case map_of (activeTimers w1) taskId of
                         None \<Rightarrow> w1
                       | Some timer \<Rightarrow>
                           let w3 = w1\<lparr>activeTimers := AList.delete taskId (activeTimers w1)\<rparr>;
                               w4 = persistTimerState h w3;
                               hasActiveTimers = (activeTimers w4 \<noteq> [])
                           in w4\<lparr>messages := messages w4 @
                                   [if hasActiveTimers then TIMER_STARTED None
                                    else TIMER_STOPPED]\<rparr>)
             in w2\<lparr>allTasks := filter (\<lambda>t. id' t \<noteq> taskId) (allTasks w2),
                    messages := messages w2 @ [UPDATE_BADGE]\<rparr>)"

section \<open>background.js: idle monitor\<close>

definition IDLE_THRESHOLD_SECONDS :: nat where
  "IDLE_THRESHOLD_SECONDS = 60"

datatype idle_state = Active | Idle | Locked

text \<open>
  The bodies of the two loops of the \<^verbatim>\<open>chrome.idle.onStateChanged\<close> listener, for one
  entry, and the loops over every key of the stored map.
\<close>

definition pause_entry :: "int \<Rightarrow> timer_data \<Rightarrow> timer_data" where
  "pause_entry now timerData =
     (if \<not> truthy_num (pausedAt timerData) then timerData\<lparr>pausedAt := Some now\<rparr>
      else timerData)"

definition resume_entry :: "int \<Rightarrow> timer_data \<Rightarrow> timer_data" where
  "resume_entry now timerData =
     (case pausedAt timerData of
        None \<Rightarrow> timerData
      | Some p \<Rightarrow>
          if p \<noteq> 0
          then let pausedDuration' = now - p
               in timerData\<lparr>pausedDuration :=
                              Some (or_num (pausedDuration timerData) 0 + pausedDuration'),
                            pausedAt := None\<rparr>
          else timerData)"

definition pause_all :: "int \<Rightarrow> timers \<Rightarrow> timers" where
  "pause_all now ts = map (\<lambda>(taskId, timerData). (taskId, pause_entry now timerData)) ts"

definition resume_all :: "int \<Rightarrow> timers \<Rightarrow> timers" where
  "resume_all now ts = map (\<lambda>(taskId, timerData). (taskId, resume_entry now timerData)) ts"

definition showRecordingBadge :: "world \<Rightarrow> world" where
  "showRecordingBadge w = w\<lparr>badge_shown := BadgeRecording\<rparr>"

definition onStateChanged :: "idle_state \<Rightarrow> host \<Rightarrow> world \<Rightarrow> world" where
  "onStateChanged newState h w =
     (if \<not> storage_get_ok h
      then w\<lparr>console := console w @ [''Error handling idle state change:'']\<rparr>
      else
        let stored = (case local_activeTimers w of None \<Rightarrow> [] | Some ts \<Rightarrow> ts)
        in if stored = [] then w
           else if \<not> storage_set_ok h
           then w\<lparr>console := console w @ [''Error handling idle state change:'']\<rparr>
           else case newState of
                  Active \<Rightarrow>
                    let w1 = w\<lparr>local_activeTimers := Some (resume_all (date_now h) stored)\<rparr>
                    in if isTimerRecording w1 then showRecordingBadge w1 else w1
                | Idle \<Rightarrow>
                    w\<lparr>local_activeTimers := Some (pause_all (date_now h) stored),
                      badge_shown := BadgePaused\<rparr>
                | Locked \<Rightarrow>
                    w\<lparr>local_activeTimers := Some (pause_all (date_now h) stored),
                      badge_shown := BadgePaused\<rparr>)"

text \<open>
  An entry's history under the idle monitor: the listener's effect on one entry for a
  sequence of state changes, each with the clock value the listener read.
\<close>

fun idle_step :: "timer_data \<Rightarrow> idle_state \<times> int \<Rightarrow> timer_data" where
  "idle_step timerData (Active, now) = resume_entry now timerData"
| "idle_step timerData (Idle, now) = pause_entry now timerData"
| "idle_step timerData (Locked, now) = pause_entry now timerData"

definition idle_run :: "(idle_state \<times> int) list \<Rightarrow> timer_data \<Rightarrow> timer_data" where
  "idle_run evs timerData = foldl idle_step timerData evs"

section \<open>background.js: fetching the tasks due today\<close>

text \<open>The callback of \<^verbatim>\<open>data.tasks.filter\<close>.\<close>

definition due_filter :: "bool \<Rightarrow> int \<Rightarrow> int \<Rightarrow> task \<Rightarrow> bool" where
  "due_filter includeOverdue todayStart todayEndMs t =
     (case due_date t of
        None \<Rightarrow> False
      | Some s \<Rightarrow>
          if s = [] then False
          else case parseInt10 s of
                 None \<Rightarrow> False
               | Some dueDate \<Rightarrow>
                   if includeOverdue then dueDate \<le> todayEndMs
                   else todayStart \<le> dueDate \<and> dueDate \<le> todayEndMs)"

text \<open>The body of the loop over the teams: what one team adds to \<^verbatim>\<open>allTasks\<close>.\<close>

definition team_tasks :: "bool \<Rightarrow> host \<Rightarrow> string \<Rightarrow> team \<Rightarrow> task list" where
  "team_tasks includeOverdue h currentUserId tm =
     (let url = (if includeOverdue
                 then \<lparr>q_team = team_id tm, q_assignee = currentUserId,
                       due_date_gt = None, due_date_lt = today_end h + 1\<rparr>
                 else \<lparr>q_team = team_id tm, q_assignee = currentUserId,
                       due_date_gt = Some (today_start h - 1),
                       due_date_lt = today_end h + 1\<rparr>)
      in case task_response h url of
           Failed \<Rightarrow> []
         | NotOk \<Rightarrow> []
         | Json data_tasks \<Rightarrow>
             (case data_tasks of
                None \<Rightarrow> []
              | Some ts \<Rightarrow>
                  map (\<lambda>t. t\<lparr>teamName := Some (team_name tm)\<rparr>)
                      (filter (due_filter includeOverdue (today_start h) (today_end h)) ts)))"

definition fetchTasksWithKey :: "string option \<Rightarrow> bool \<Rightarrow> host \<Rightarrow> task list" where
  "fetchTasksWithKey apiKey includeOverdue h =
     (if \<not> truthy_str apiKey then []
      else case user_response h of
             Failed \<Rightarrow> []
           | NotOk \<Rightarrow> []
           | Json currentUserId \<Rightarrow>
               (case team_response h of
                  Failed \<Rightarrow> []
                | NotOk \<Rightarrow> []
                | Json teams \<Rightarrow>
                    (case teams of
                       None \<Rightarrow> []
                     | Some tms \<Rightarrow>
                         concat (map (team_tasks includeOverdue h currentUserId) tms))))"

section \<open>background.js: badge and notifications\<close>

definition updateBadgeCount :: "host \<Rightarrow> world \<Rightarrow> world" where
  "updateBadgeCount h w =
     (if isTimerRecording w then showRecordingBadge w
      else if \<not> storage_get_ok h
      then w\<lparr>badge_shown := BadgeEmpty, console := console w @ [''Error updating badge:'']\<rparr>
      else
        let currentSettings = (case sync_settings w of None \<Rightarrow> defaultSettings | Some s \<Rightarrow> s)
        in if truthy_str (sync_clickupApiKey w) \<and> badge (features currentSettings)
           then let tasks = fetchTasksWithKey (sync_clickupApiKey w)
                              (overdue (features currentSettings)) h
                in if length tasks > 0 then w\<lparr>badge_shown := BadgeCount (length tasks)\<rparr>
                   else w\<lparr>badge_shown := BadgeEmpty\<rparr>
           else w\<lparr>badge_shown := BadgeEmpty\<rparr>)"

definition checkPersistedTimers :: "host \<Rightarrow> world \<Rightarrow> world" where
  "checkPersistedTimers h w =
     (if \<not> storage_get_ok h
      then updateBadgeCount h (w\<lparr>console := console w @ [''Error checking persisted timers:'']\<rparr>)
      else
        let persistedTimers = (case local_activeTimers w of None \<Rightarrow> [] | Some ts \<Rightarrow> ts);
            hasActiveTimers = (persistedTimers \<noteq> [])
        in if hasActiveTimers then showRecordingBadge (w\<lparr>isTimerRecording := True\<rparr>)
           else updateBadgeCount h (w\<lparr>isTimerRecording := False\<rparr>))"

text \<open>
  The loop of \<^verbatim>\<open>checkDueNotifications\<close> over the fetched tasks, one task at a time.
  \<^verbatim>\<open>Math.round(timeUntilDue / 60000)\<close> rounds halves up.
\<close>

definition notify_step :: "int \<Rightarrow> int \<Rightarrow> world \<Rightarrow> task \<Rightarrow> world" where
  "notify_step now notifyBeforeMs w t =
     (case due_date t of
        None \<Rightarrow> w
      | Some s \<Rightarrow>
          if s = [] then w
          else case parseInt10 s of
                 None \<Rightarrow> w
               | Some dueDate \<Rightarrow>
                   let timeUntilDue = dueDate - now
                   in if 0 < timeUntilDue \<and> timeUntilDue \<le> notifyBeforeMs
                         \<and> id' t \<notin> set (notifiedTasks w)
                      then w\<lparr>created := created w @
                                [\<lparr>notificationId = id' t, taskName = name t,
                                  minutes = (timeUntilDue + 30000) div 60000\<rparr>],
                              notifiedTasks := notifiedTasks w @ [id' t]\<rparr>
                      else w)"

text \<open>The test of the cleaning loop: whether \<open>taskId\<close> is deleted from the set.\<close>

definition evicted :: "task list \<Rightarrow> int \<Rightarrow> string \<Rightarrow> bool" where
  "evicted tasks now taskId =
     (case find (\<lambda>t. id' t = taskId) tasks of
        None \<Rightarrow> True
      | Some t \<Rightarrow>
          (case due_date t of
             None \<Rightarrow> False
           | Some s \<Rightarrow>
               if s = [] then False
               else case parseInt10 s of None \<Rightarrow> False | Some dueDate \<Rightarrow> dueDate < now))"

definition checkDueNotifications :: "host \<Rightarrow> world \<Rightarrow> world" where
  "checkDueNotifications h w =
     (if \<not> storage_get_ok h
      then w\<lparr>console := console w @ [''Error checking notifications:'']\<rparr>
      else
        let currentSettings = (case sync_settings w of None \<Rightarrow> defaultSettings | Some s \<Rightarrow> s)
        in if truthy_str (sync_clickupApiKey w) \<and> notifications (features currentSettings)
           then let tasks = fetchTasksWithKey (sync_clickupApiKey w) False h;
                    now = date_now h;
                    notifyBeforeMs = or_num (notificationMinutes currentSettings) 15 * 60 * 1000;
                    w1 = foldl (notify_step now notifyBeforeMs) w tasks
                in w1\<lparr>notifiedTasks :=
                        filter (\<lambda>taskId. \<not> evicted tasks now taskId) (notifiedTasks w1)\<rparr>
           else w)"

text \<open>
  The specification's two conditions on a task at an instant: its time until due lies in
  \<open>(0, ms]\<close>, and its due time has passed. A task whose due date is missing or does
  not read as a number satisfies neither.
\<close>

definition due_within :: "int \<Rightarrow> int \<Rightarrow> task \<Rightarrow> bool" where
  "due_within now ms t =
     (case due_date t of
        None \<Rightarrow> False
      | Some s \<Rightarrow>
          (case parseInt10 s of
             None \<Rightarrow> False
           | Some d \<Rightarrow> 0 < d - now \<and> d - now \<le> ms))"

definition past_due :: "int \<Rightarrow> task \<Rightarrow> bool" where
  "past_due now t =
     (case due_date t of
        None \<Rightarrow> False
      | Some s \<Rightarrow> (case parseInt10 s of None \<Rightarrow> False | Some d \<Rightarrow> d < now))"

section \<open>background.js: listeners\<close>

definition onInstalled :: "host \<Rightarrow> world \<Rightarrow> world" where
  "onInstalled h w =
     checkPersistedTimers h
       (w\<lparr>alarms := AList.update ''checkNotifications'' 1
                       (AList.update ''updateBadge'' 5 (alarms w)),
          detectionInterval := Some IDLE_THRESHOLD_SECONDS\<rparr>)"

definition onStartup :: "host \<Rightarrow> world \<Rightarrow> world" where
  "onStartup h w =
     checkPersistedTimers h (w\<lparr>detectionInterval := Some IDLE_THRESHOLD_SECONDS\<rparr>)"

definition onAlarm :: "string \<Rightarrow> host \<Rightarrow> world \<Rightarrow> world" where
  "onAlarm alarm_name h w =
     (if alarm_name = ''updateBadge'' then updateBadgeCount h w
      else if alarm_name = ''checkNotifications'' then checkDueNotifications h w
      else w)"

text \<open>
  The message listener. \<^verbatim>\<open>GET_TASKS\<close> answers the sender with the fetched tasks and
  changes nothing.
\<close>

fun onMessage :: "message \<Rightarrow> host \<Rightarrow> world \<Rightarrow> world" where
  "onMessage SETTINGS_UPDATED h w = updateBadgeCount h w"
| "onMessage UPDATE_BADGE h w = updateBadgeCount h w"
| "onMessage GET_TASKS h w = w"
| "onMessage (TIMER_STARTED taskId) h w = showRecordingBadge (w\<lparr>isTimerRecording := True\<rparr>)"
| "onMessage TIMER_STOPPED h w = updateBadgeCount h (w\<lparr>isTimerRecording := False\<rparr>)"

section \<open>options.js: saving the feature settings\<close>

record options_form =
  featureToggles :: features
  notificationMinutesInput :: string
  idleThresholdInput :: string

definition saveFeatures :: "options_form \<Rightarrow> host \<Rightarrow> world \<Rightarrow> world" where
  "saveFeatures form h w =
     (let idleThreshold = parseInt10 (idleThresholdInput form);
          validIdleThreshold = (case idleThreshold of
                                  None \<Rightarrow> 1
                                | Some n \<Rightarrow> if n < 1 then 1 else n);
          settings' = \<lparr>features = featureToggles form,
                       notificationMinutes =
                         Some (or_num (parseInt10 (notificationMinutesInput form)) 15),
                       idleThresholdMinutes = Some validIdleThreshold\<rparr>
      in if storage_set_ok h
         then w\<lparr>sync_settings := Some settings',
                messages := messages w @ [SETTINGS_UPDATED]\<rparr>
         else w)"

section \<open>Example states\<close>

text \<open>
  A world with two timers, the first one paused, and a host whose write requests fail.
  The concrete instances below are evaluated on them.
\<close>

definition example_timers :: timers where
  "example_timers =
     [(''86a1'', \<lparr>startTime = 1000, pausedDuration = Some 200, pausedAt = Some 1500\<rparr>),
      (''86b2'', \<lparr>startTime = 1200, pausedDuration = Some 0, pausedAt = None\<rparr>)]"

definition example_world :: world where
  "example_world =
     \<lparr>local_activeTimers = Some example_timers,
      sync_clickupApiKey = Some ''pk_1'',
      sync_settings = None,
      activeTimers = example_timers,
      allTasks = [],
      notifiedTasks = [],
      isTimerRecording = True,
      badge_shown = BadgeRecording,
      detectionInterval = Some 60,
      alarms = [],
      created = [],
      requests = [],
      messages = [],
      console = []\<rparr>"

definition example_host :: host where
  "example_host =
     \<lparr>date_now = 2000,
      date_now_end = 2001,
      today_start = 0,
      today_end = 86399999,
      user_response = Json ''u1'',
      team_response = Json (Some [\<lparr>team_id = ''T1'', team_name = ''Home''\<rparr>]),
      task_response = (\<lambda>q. Json (Some [])),
      write_response = Rejected,
      storage_get_ok = True,
      storage_set_ok = True\<rparr>"

text \<open>
  A day starting at 1762041600000 with its last millisecond 1762127999999, and a remote
  service that answers every task query with five tasks: due one millisecond before
  the day, at its first instant, one millisecond later, with no due date, and at the
  first instant of the next day.
\<close>

definition example_fetched :: "task list" where
  "example_fetched =
     [\<lparr>id' = ''a'', name = ''before midnight'', due_date = Some ''1762041599999'', teamName = None\<rparr>,
      \<lparr>id' = ''b'', name = ''at midnight'', due_date = Some ''1762041600000'', teamName = None\<rparr>,
      \<lparr>id' = ''c'', name = ''after midnight'', due_date = Some ''1762041600001'', teamName = None\<rparr>,
      \<lparr>id' = ''d'', name = ''no due date'', due_date = None, teamName = None\<rparr>,
      \<lparr>id' = ''e'', name = ''next midnight'', due_date = Some ''1762128000000'', teamName = None\<rparr>]"

definition example_day_host :: host where
  "example_day_host =
     \<lparr>date_now = 1762077600000,
      date_now_end = 1762077600000,
      today_start = 1762041600000,
      today_end = 1762127999999,
      user_response = Json ''u1'',
      team_response = Json (Some [\<lparr>team_id = ''T1'', team_name = ''Home''\<rparr>]),
      task_response = (\<lambda>q. Json (Some example_fetched)),
      write_response = Responded True,
      storage_get_ok = True,
      storage_set_ok = True\<rparr>"

text \<open>
  A day of 23 hours (Berlin, 30 March 2025) and a service that returns one task, due
  half an hour after the next local midnight.
\<close>

definition example_short_day_host :: host where
  "example_short_day_host =
     example_day_host
       \<lparr>date_now := 1743325200000,
        date_now_end := 1743325200000,
        today_start := 1743289200000,
        today_end := 1743371999999,
        task_response :=
          (\<lambda>q. Json (Some [\<lparr>id' = ''n'', name = ''half past midnight'',
                               due_date = Some ''1743373800000'', teamName = None\<rparr>]))\<rparr>"

text \<open>
  At 1762077600000 on that day, with a lead time of 15 minutes: one task due in ten
  minutes, one in twenty, one ten minutes ago; the set already holds the past task's id
  and the id of a task that is no longer fetched.
\<close>

definition example_due_soon :: "task list" where
  "example_due_soon =
     [\<lparr>id' = ''p'', name = ''due in ten minutes'', due_date = Some ''1762078200000'',
       teamName = None\<rparr>,
      \<lparr>id' = ''q'', name = ''due in twenty minutes'', due_date = Some ''1762078800000'',
       teamName = None\<rparr>,
      \<lparr>id' = ''r'', name = ''due ten minutes ago'', due_date = Some ''1762077000000'',
       teamName = None\<rparr>]"

definition example_tick_host :: host where
  "example_tick_host = example_day_host\<lparr>task_response := (\<lambda>q. Json (Some example_due_soon))\<rparr>"

definition example_tick_world :: world where
  "example_tick_world =
     example_world
       \<lparr>sync_settings :=
          Some (defaultSettings
                  \<lparr>features := (features defaultSettings)\<lparr>notifications := True\<rparr>\<rparr>),
        notifiedTasks := [''r'', ''z'']\<rparr>"

text \<open>The options form with the idle threshold set to 5 minutes.\<close>

definition example_form :: options_form where
  "example_form =
     \<lparr>featureToggles = (features defaultSettings)\<lparr>idleDetection := Some True\<rparr>,
      notificationMinutesInput = ''15'',
      idleThresholdInput = ''5''\<rparr>"

section \<open>Effective elapsed time\<close>

lemma getEffectiveElapsed_entry:
  "getEffectiveElapsed now timerData = effective_elapsed_spec (entry_of timerData) now"
  by (simp add: getEffectiveElapsed_def effective_elapsed_spec_def entry_of_def or_null_def
      Let_def split: option.splits)

lemma requests_persistTimerState: "requests (persistTimerState h w) = requests w"
  by (simp add: persistTimerState_def)

lemma activeTimers_persistTimerState: "activeTimers (persistTimerState h w) = activeTimers w"
  by (simp add: persistTimerState_def)

lemma requests_stopTimer:
  "map_of (activeTimers w) taskId = Some timerData \<Longrightarrow>
   requests (stopTimer taskId h w) =
     requests w @ [PostTime taskId \<lparr>duration = getEffectiveElapsed (date_now h) timerData,
                                     start = startTime timerData,
                                     end' = date_now_end h\<rparr>]"
  by (simp add: stopTimer_def Let_def requests_persistTimerState split: fetch_result.splits)

text \<open>
  C1. For every stored timer value and every instant \<open>now\<close>, \<^verbatim>\<open>getEffectiveElapsed\<close>
  is the specification's formula on the entry the value stands for:
  \<open>now - start_time - paused_duration - (now - paused_at\<close> if \<open>paused_at\<close> is set, else
  \<open>0)\<close>, clamped below at 0. The same value is the \<open>duration\<close> of the time-log
  request that \<^verbatim>\<open>stopTimer\<close> issues, computed at the instant \<^verbatim>\<open>stopTimer\<close> reads the
  clock.
\<close>

theorem effective_elapsed_formula:
  "getEffectiveElapsed now timerData = effective_elapsed_spec (entry_of timerData) now \<and>
   (map_of (activeTimers w) taskId = Some timerData \<longrightarrow>
      requests (stopTimer taskId h w) =
        requests w @
          [PostTime taskId
             \<lparr>duration = effective_elapsed_spec (entry_of timerData) (date_now h),
              start = startTime timerData,
              end' = date_now_end h\<rparr>])"
  by (simp add: requests_stopTimer getEffectiveElapsed_entry)

theorem effective_elapsed_formula_witness:
  "map_of (activeTimers example_world) ''86a1''
     = Some \<lparr>startTime = 1000, pausedDuration = Some 200, pausedAt = Some 1500\<rparr> \<and>
   getEffectiveElapsed 2000 \<lparr>startTime = 1000, pausedDuration = Some 200, pausedAt = Some 1500\<rparr>
     = 300 \<and>
   requests (stopTimer ''86a1'' example_host example_world)
     = [PostTime ''86a1'' \<lparr>duration = 300, start = 1000, end' = 2001\<rparr>]"
  using effective_elapsed_formula
    [of 2000 "\<lparr>startTime = 1000, pausedDuration = Some 200, pausedAt = Some 1500\<rparr>"
        example_world "''86a1''" example_host]
  by (simp add: example_world_def example_timers_def example_host_def
      effective_elapsed_spec_def entry_of_def or_num_def or_null_def)

section \<open>Starting and stopping\<close>

lemma local_persistTimerState:
  "storage_set_ok h \<Longrightarrow>
   local_activeTimers (persistTimerState h w) = Some (timersToSave (activeTimers w))"
  by (simp add: persistTimerState_def)

lemma map_of_timersToSave:
  "map_of (timersToSave ts) k = None \<longleftrightarrow> map_of ts k = None"
  by (induction ts) (auto simp: timersToSave_def)

lemma activeTimers_startTimer:
  "activeTimers (startTimer taskId h w)
     = AList.update taskId \<lparr>startTime = date_now h, pausedDuration = Some 0, pausedAt = None\<rparr>
         (activeTimers w)"
  by (simp add: startTimer_def Let_def activeTimers_persistTimerState)

lemma activeTimers_stopTimer:
  "activeTimers (stopTimer taskId h w) = AList.delete taskId (activeTimers w)"
proof (cases "map_of (activeTimers w) taskId")
  case None
  then have "taskId \<notin> fst ` set (activeTimers w)"
    by (simp add: map_of_eq_None_iff)
  then have "AList.delete taskId (activeTimers w) = activeTimers w"
    by (simp add: delete_id)
  with None show ?thesis
    by (simp add: stopTimer_def)
next
  case (Some timer)
  then show ?thesis
    by (simp add: stopTimer_def Let_def activeTimers_persistTimerState
        split: fetch_result.splits)
qed

lemma local_stopTimer:
  "map_of (activeTimers w) taskId = Some timer \<Longrightarrow> storage_set_ok h \<Longrightarrow>
   local_activeTimers (stopTimer taskId h w)
     = Some (timersToSave (AList.delete taskId (activeTimers w)))"
  by (simp add: stopTimer_def Let_def persistTimerState_def split: fetch_result.splits)

text \<open>
  C2, as the specification states it, fails: \<^verbatim>\<open>startTimer\<close> on a task id that has an
  entry does not fail and does not keep the entry. Called directly it overwrites the
  entry; through \<^verbatim>\<open>toggleTimer\<close>, the only caller, the second click stops the timer
  and the entry is gone.
\<close>

theorem second_start_counterexample:
  "map_of (activeTimers example_world) ''86a1''
     = Some \<lparr>startTime = 1000, pausedDuration = Some 200, pausedAt = Some 1500\<rparr> \<and>
   map_of (activeTimers (startTimer ''86a1'' example_host example_world)) ''86a1''
     = Some \<lparr>startTime = 2000, pausedDuration = Some 0, pausedAt = None\<rparr> \<and>
   map_of (activeTimers (toggleTimer ''86a1'' example_host example_world)) ''86a1'' = None"
  by (simp add: toggleTimer_def activeTimers_startTimer activeTimers_stopTimer
      example_world_def example_timers_def example_host_def)

text \<open>
  C2, amended. \<^verbatim>\<open>toggleTimer\<close> is the guard: for a task id that has an entry it runs
  \<^verbatim>\<open>stopTimer\<close>, after which the id has no entry, and only for a task id without an
  entry it runs \<^verbatim>\<open>startTimer\<close>. \<^verbatim>\<open>startTimer\<close> itself checks nothing: it always
  stores a fresh entry (start at the clock value, no accumulated pause, not paused)
  under the task id and leaves every other entry as it was.
\<close>

theorem toggle_guards_start:
  "(map_of (activeTimers w) taskId \<noteq> None \<longrightarrow>
      toggleTimer taskId h w = stopTimer taskId h w \<and>
      map_of (activeTimers (toggleTimer taskId h w)) taskId = None) \<and>
   (map_of (activeTimers w) taskId = None \<longrightarrow>
      toggleTimer taskId h w = startTimer taskId h w) \<and>
   map_of (activeTimers (startTimer taskId h w)) taskId
     = Some \<lparr>startTime = date_now h, pausedDuration = Some 0, pausedAt = None\<rparr> \<and>
   (\<forall>k. k \<noteq> taskId \<longrightarrow>
      map_of (activeTimers (startTimer taskId h w)) k = map_of (activeTimers w) k)"
  by (auto simp: toggleTimer_def activeTimers_startTimer activeTimers_stopTimer
      update_conv' delete_conv')

theorem toggle_guards_start_witness:
  "map_of (activeTimers example_world) ''86a1'' \<noteq> None \<and>
   toggleTimer ''86a1'' example_host example_world = stopTimer ''86a1'' example_host example_world \<and>
   map_of (activeTimers (toggleTimer ''86a1'' example_host example_world)) ''86a1'' = None \<and>
   map_of (activeTimers example_world) ''86c3'' = None \<and>
   toggleTimer ''86c3'' example_host example_world = startTimer ''86c3'' example_host example_world \<and>
   map_of (activeTimers (startTimer ''86c3'' example_host example_world)) ''86c3''
     = Some \<lparr>startTime = 2000, pausedDuration = Some 0, pausedAt = None\<rparr> \<and>
   ''86a1'' \<noteq> ''86c3'' \<and>
   map_of (activeTimers (startTimer ''86c3'' example_host example_world)) ''86a1''
     = Some \<lparr>startTime = 1000, pausedDuration = Some 200, pausedAt = Some 1500\<rparr>"
proof -
  have a: "map_of (activeTimers example_world) ''86a1''
             = Some \<lparr>startTime = 1000, pausedDuration = Some 200, pausedAt = Some 1500\<rparr>"
    by (simp add: example_world_def example_timers_def)
  have b: "map_of (activeTimers example_world) ''86c3'' = None"
    by (simp add: example_world_def example_timers_def)
  have c: "date_now example_host = 2000"
    by (simp add: example_host_def)
  have d: "''86a1'' \<noteq> ''86c3''"
    by simp
  note t1 = toggle_guards_start [of example_world "''86a1''" example_host]
  note t2 = toggle_guards_start [of example_world "''86c3''" example_host]
  from t1 a have "toggleTimer ''86a1'' example_host example_world
                    = stopTimer ''86a1'' example_host example_world"
    and "map_of (activeTimers (toggleTimer ''86a1'' example_host example_world)) ''86a1'' = None"
    by auto
  moreover from t2 b have "toggleTimer ''86c3'' example_host example_world
                    = startTimer ''86c3'' example_host example_world"
    by simp
  moreover from t2 c
  have "map_of (activeTimers (startTimer ''86c3'' example_host example_world)) ''86c3''
          = Some \<lparr>startTime = 2000, pausedDuration = Some 0, pausedAt = None\<rparr>"
    by simp
  moreover from t2 d a
  have "map_of (activeTimers (startTimer ''86c3'' example_host example_world)) ''86a1''
          = Some \<lparr>startTime = 1000, pausedDuration = Some 200, pausedAt = Some 1500\<rparr>"
    by metis
  ultimately show ?thesis using a b d by simp
qed

text \<open>
  C3. After \<^verbatim>\<open>stopTimer\<close> the task id has no entry in the popup's map, whatever the
  time-log request did: the map after a rejected request is the map after an answered
  one. When the id had an entry and the storage write succeeds, the stored map is the
  popup's map without that entry.
\<close>

theorem stop_removes_entry:
  "map_of (activeTimers (stopTimer taskId h w)) taskId = None \<and>
   activeTimers (stopTimer taskId (h\<lparr>write_response := Rejected\<rparr>) w)
     = activeTimers (stopTimer taskId (h\<lparr>write_response := Responded ok\<rparr>) w) \<and>
   (map_of (activeTimers w) taskId \<noteq> None \<and> storage_set_ok h \<longrightarrow>
      local_activeTimers (stopTimer taskId h w)
        = Some (timersToSave (AList.delete taskId (activeTimers w))) \<and>
      map_of (timersToSave (AList.delete taskId (activeTimers w))) taskId = None)"
  by (auto simp: activeTimers_stopTimer delete_conv local_stopTimer map_of_timersToSave)

theorem stop_removes_entry_witness:
  "write_response example_host = Rejected \<and>
   map_of (activeTimers example_world) ''86a1'' \<noteq> None \<and> storage_set_ok example_host \<and>
   map_of (activeTimers (stopTimer ''86a1'' example_host example_world)) ''86a1'' = None \<and>
   local_activeTimers (stopTimer ''86a1'' example_host example_world)
     = Some [(''86b2'', \<lparr>startTime = 1200, pausedDuration = Some 0, pausedAt = None\<rparr>)]"
  using stop_removes_entry [of "''86a1''" example_host example_world]
  by (simp add: example_world_def example_timers_def example_host_def timersToSave_def
      or_num_def or_null_def)

lemma requests_completeTask:
  "requests (completeTask taskId h w) = requests w @ [PutStatusClosed taskId]"
  by (simp add: completeTask_def Let_def requests_persistTimerState
      split: fetch_result.splits option.splits)

text \<open>
  C8 does not hold of \<^verbatim>\<open>completeTask\<close>. Task \<open>86b2\<close> has a running timer with 800 ms
  accrued; completing it sends the status update and nothing else, removes the entry
  and stores the map without it. No time-log request is issued.
\<close>

theorem complete_drops_running_timer:
  "map_of (activeTimers example_world) ''86b2''
     = Some \<lparr>startTime = 1200, pausedDuration = Some 0, pausedAt = None\<rparr> \<and>
   getEffectiveElapsed (date_now example_host)
     \<lparr>startTime = 1200, pausedDuration = Some 0, pausedAt = None\<rparr> = 800 \<and>
   requests (completeTask ''86b2'' (example_host\<lparr>write_response := Responded True\<rparr>)
               example_world)
     = [PutStatusClosed ''86b2''] \<and>
   map_of (activeTimers (completeTask ''86b2'' (example_host\<lparr>write_response := Responded True\<rparr>)
                           example_world)) ''86b2'' = None \<and>
   local_activeTimers (completeTask ''86b2'' (example_host\<lparr>write_response := Responded True\<rparr>)
                         example_world)
     = Some [(''86a1'', \<lparr>startTime = 1000, pausedDuration = Some 200, pausedAt = Some 1500\<rparr>)]"
  by (simp add: completeTask_def Let_def persistTimerState_def timersToSave_def
      getEffectiveElapsed_def or_num_def or_null_def
      example_world_def example_timers_def example_host_def)

section \<open>The logged interval\<close>

lemma getEffectiveElapsed_consistent:
  assumes "consistent_at now (entry_of timerData)"
  shows "getEffectiveElapsed now timerData \<le> now - startTime timerData
           - paused_duration (entry_of timerData)"
    and "0 \<le> now - startTime timerData - paused_duration (entry_of timerData)"
  using assms
  by (auto simp: getEffectiveElapsed_entry effective_elapsed_spec_def consistent_at_def
      entry_of_def split: option.splits)

text \<open>
  C10, as stated, fails: \<^verbatim>\<open>stopTimer\<close> reads the clock twice, once inside
  \<^verbatim>\<open>getEffectiveElapsed\<close> and once for \<open>end\<close>. Task \<open>86b2\<close> runs since 1200 with no
  pause; the first read gives 2000 and the second 2001. The request carries the
  duration 800 and the end 2001, while the effective elapsed time at 2001 is 801.
\<close>

theorem stop_duration_counterexample:
  "map_of (activeTimers example_world) ''86b2''
     = Some \<lparr>startTime = 1200, pausedDuration = Some 0, pausedAt = None\<rparr> \<and>
   date_now example_host = 2000 \<and>
   date_now_end example_host = 2001 \<and>
   requests (stopTimer ''86b2'' example_host example_world)
     = [PostTime ''86b2'' \<lparr>duration = 800, start = 1200, end' = 2001\<rparr>] \<and>
   getEffectiveElapsed 2001 \<lparr>startTime = 1200, pausedDuration = Some 0, pausedAt = None\<rparr>
     = 801 \<and>
   effective_elapsed_spec
     (entry_of \<lparr>startTime = 1200, pausedDuration = Some 0, pausedAt = None\<rparr>) 2001 = 801"
  by (simp add: stopTimer_def Let_def persistTimerState_def getEffectiveElapsed_def
      effective_elapsed_spec_def entry_of_def or_num_def or_null_def
      example_world_def example_timers_def example_host_def)

text \<open>
  C10, amended. For every entry that \<^verbatim>\<open>stopTimer\<close> stops, the time-log request carries
  as \<open>duration\<close> the effective elapsed time at the instant of the first clock read
  (the one inside \<^verbatim>\<open>getEffectiveElapsed\<close>), which is the effective elapsed time at
  \<open>end\<close> when both reads give the same instant; \<open>start\<close> is the raw start instant and
  \<open>end\<close> the raw value of the second read. When the entry is consistent at the first
  read and the second read is not earlier, the duration is at most \<open>end - start\<close>, and
  strictly less when the entry has accumulated a pause.
\<close>

theorem stop_duration_within_interval:
  assumes "map_of (activeTimers w) taskId = Some timerData"
  shows "\<exists>body. requests (stopTimer taskId h w) = requests w @ [PostTime taskId body] \<and>
           duration body = effective_elapsed_spec (entry_of timerData) (date_now h) \<and>
           (date_now_end h = date_now h \<longrightarrow>
              duration body = effective_elapsed_spec (entry_of timerData) (end' body)) \<and>
           start body = startTime timerData \<and>
           end' body = date_now_end h \<and>
           (consistent_at (date_now h) (entry_of timerData) \<and> date_now h \<le> date_now_end h \<longrightarrow>
              duration body \<le> end' body - start body \<and>
              (0 < paused_duration (entry_of timerData) \<longrightarrow>
                 duration body < end' body - start body))"
proof -
  let ?d = "getEffectiveElapsed (date_now h) timerData"
  have bounds: "?d \<le> date_now_end h - startTime timerData \<and>
      (0 < paused_duration (entry_of timerData) \<longrightarrow> ?d < date_now_end h - startTime timerData)"
    if c: "consistent_at (date_now h) (entry_of timerData)"
      and o: "date_now h \<le> date_now_end h"
  proof -
    have "?d \<le> date_now h - startTime timerData - paused_duration (entry_of timerData)"
      using c by (rule getEffectiveElapsed_consistent)
    moreover have "0 \<le> paused_duration (entry_of timerData)"
      using c by (simp add: consistent_at_def)
    ultimately show ?thesis
      using o by auto
  qed
  let ?body = "\<lparr>duration = ?d, start = startTime timerData, end' = date_now_end h\<rparr>"
  have r: "requests (stopTimer taskId h w) = requests w @ [PostTime taskId ?body]"
    using assms by (rule requests_stopTimer)
  show ?thesis
  proof (intro exI [of _ ?body] conjI impI)
    show "requests (stopTimer taskId h w) = requests w @ [PostTime taskId ?body]"
      by (rule r)
    show "duration ?body = effective_elapsed_spec (entry_of timerData) (date_now h)"
      by (simp add: getEffectiveElapsed_entry)
    show "duration ?body = effective_elapsed_spec (entry_of timerData) (end' ?body)"
      if "date_now_end h = date_now h"
      using that by (simp add: getEffectiveElapsed_entry)
    show "start ?body = startTime timerData"
      by simp
    show "end' ?body = date_now_end h"
      by simp
    show "duration ?body \<le> end' ?body - start ?body"
      if "consistent_at (date_now h) (entry_of timerData) \<and> date_now h \<le> date_now_end h"
      using that bounds by simp
    show "duration ?body < end' ?body - start ?body"
      if "consistent_at (date_now h) (entry_of timerData) \<and> date_now h \<le> date_now_end h"
        and "0 < paused_duration (entry_of timerData)"
      using that bounds by simp
  qed
qed

theorem stop_duration_within_interval_witness:
  "map_of (activeTimers example_world) ''86a1''
     = Some \<lparr>startTime = 1000, pausedDuration = Some 200, pausedAt = Some 1500\<rparr> \<and>
   consistent_at (date_now example_host)
     (entry_of \<lparr>startTime = 1000, pausedDuration = Some 200, pausedAt = Some 1500\<rparr>) \<and>
   date_now example_host \<le> date_now_end example_host \<and>
   0 < paused_duration
         (entry_of \<lparr>startTime = 1000, pausedDuration = Some 200, pausedAt = Some 1500\<rparr>) \<and>
   (\<exists>body. requests (stopTimer ''86a1'' example_host example_world) = [PostTime ''86a1'' body] \<and>
      duration body = 300 \<and> start body = 1000 \<and> end' body = 2001 \<and>
      duration body < end' body - start body) \<and>
   date_now_end (example_host\<lparr>date_now_end := 2000\<rparr>)
     = date_now (example_host\<lparr>date_now_end := 2000\<rparr>) \<and>
   (\<exists>body. requests (stopTimer ''86a1'' (example_host\<lparr>date_now_end := 2000\<rparr>) example_world)
              = [PostTime ''86a1'' body] \<and>
      end' body = 2000 \<and>
      duration body
        = effective_elapsed_spec
            (entry_of \<lparr>startTime = 1000, pausedDuration = Some 200, pausedAt = Some 1500\<rparr>)
            (end' body))"
proof -
  let ?td = "\<lparr>startTime = 1000, pausedDuration = Some 200, pausedAt = Some 1500\<rparr>"
  let ?h2 = "example_host\<lparr>date_now_end := 2000\<rparr>"
  have a: "map_of (activeTimers example_world) ''86a1'' = Some ?td"
    by (simp add: example_world_def example_timers_def)
  have b: "consistent_at (date_now example_host) (entry_of ?td)"
    by (simp add: consistent_at_def entry_of_def example_host_def or_num_def or_null_def)
  have c: "date_now example_host \<le> date_now_end example_host"
    by (simp add: example_host_def)
  have d: "0 < paused_duration (entry_of ?td)"
    by (simp add: entry_of_def or_num_def)
  have e: "effective_elapsed_spec (entry_of ?td) (date_now example_host) = 300"
    by (simp add: effective_elapsed_spec_def entry_of_def example_host_def or_num_def
        or_null_def)
  have f: "requests example_world = []" "date_now_end example_host = 2001"
    by (simp_all add: example_world_def example_host_def)
  have g: "date_now_end ?h2 = date_now ?h2"
    by (simp add: example_host_def)
  from stop_duration_within_interval [OF a, of example_host] b c d e f
  have first: "\<exists>body. requests (stopTimer ''86a1'' example_host example_world)
                         = [PostTime ''86a1'' body] \<and>
      duration body = 300 \<and> start body = 1000 \<and> end' body = 2001 \<and>
      duration body < end' body - start body"
    by auto
  from stop_duration_within_interval [OF a, of ?h2] g f(1)
  have second: "\<exists>body. requests (stopTimer ''86a1'' ?h2 example_world) = [PostTime ''86a1'' body] \<and>
      end' body = 2000 \<and>
      duration body = effective_elapsed_spec (entry_of ?td) (end' body)"
    by auto
  from a b c d first g second show ?thesis
    by blast
qed

section \<open>Pausing and resuming\<close>

lemma paused_at_entry_of:
  "paused_at (entry_of timerData) = None \<longleftrightarrow> \<not> truthy_num (pausedAt timerData)"
  by (simp add: entry_of_def or_null_def truthy_num_def split: option.splits)

lemma entry_of_stored:
  "entry_of \<lparr>startTime = startTime timerData,
             pausedDuration = Some (or_num (pausedDuration timerData) 0),
             pausedAt = or_null (pausedAt timerData)\<rparr> = entry_of timerData"
  by (simp add: entry_of_def or_num_def or_null_def split: option.splits)

lemma getEffectiveElapsed_running_mono:
  "paused_at (entry_of timerData) = None \<Longrightarrow> now \<le> now' \<Longrightarrow>
   getEffectiveElapsed now timerData \<le> getEffectiveElapsed now' timerData"
  by (simp add: getEffectiveElapsed_entry effective_elapsed_spec_def)

lemma getEffectiveElapsed_paused_const:
  "paused_at (entry_of timerData) \<noteq> None \<Longrightarrow>
   getEffectiveElapsed now timerData = getEffectiveElapsed now' timerData"
  by (auto simp: getEffectiveElapsed_entry effective_elapsed_spec_def)

lemma getEffectiveElapsed_pause_entry:
  "getEffectiveElapsed now (pause_entry now timerData) = getEffectiveElapsed now timerData"
  by (simp add: getEffectiveElapsed_def pause_entry_def truthy_num_def Let_def
      split: option.splits)

lemma getEffectiveElapsed_resume_entry:
  "getEffectiveElapsed now (resume_entry now timerData) = getEffectiveElapsed now timerData"
  by (auto simp: getEffectiveElapsed_def resume_entry_def or_num_def Let_def
      split: option.splits)

lemma getEffectiveElapsed_idle_step:
  "getEffectiveElapsed now (idle_step timerData (s, now)) = getEffectiveElapsed now timerData"
  by (cases s) (simp_all add: getEffectiveElapsed_pause_entry getEffectiveElapsed_resume_entry)

text \<open>
  C4. Whatever sequence of idle, locked and active transitions an entry has been through,
  its effective elapsed time does not decrease as the clock value grows while the entry
  runs (\<open>paused_at\<close> unset) and does not depend on the clock value while the entry is
  paused (\<open>paused_at\<close> set); and a transition leaves the value at its own instant as
  it was, so the value never jumps.
\<close>

theorem elapsed_monotone_running_frozen_paused:
  "(paused_at (entry_of (idle_run evs timerData)) = None \<longrightarrow> now \<le> now' \<longrightarrow>
      getEffectiveElapsed now (idle_run evs timerData)
        \<le> getEffectiveElapsed now' (idle_run evs timerData)) \<and>
   (paused_at (entry_of (idle_run evs timerData)) \<noteq> None \<longrightarrow>
      getEffectiveElapsed now (idle_run evs timerData)
        = getEffectiveElapsed now' (idle_run evs timerData)) \<and>
   getEffectiveElapsed now (idle_step (idle_run evs timerData) (s, now))
     = getEffectiveElapsed now (idle_run evs timerData)"
  using getEffectiveElapsed_running_mono getEffectiveElapsed_paused_const
    getEffectiveElapsed_idle_step
  by blast

theorem elapsed_monotone_running_frozen_paused_witness:
  "idle_run [(Idle, 1500), (Active, 1800)]
     \<lparr>startTime = 1000, pausedDuration = Some 200, pausedAt = None\<rparr>
     = \<lparr>startTime = 1000, pausedDuration = Some 500, pausedAt = None\<rparr> \<and>
   paused_at (entry_of (idle_run [(Idle, 1500), (Active, 1800)]
     \<lparr>startTime = 1000, pausedDuration = Some 200, pausedAt = None\<rparr>)) = None \<and>
   (2000::int) \<le> 3000 \<and>
   getEffectiveElapsed 2000 (idle_run [(Idle, 1500), (Active, 1800)]
     \<lparr>startTime = 1000, pausedDuration = Some 200, pausedAt = None\<rparr>)
   \<le> getEffectiveElapsed 3000 (idle_run [(Idle, 1500), (Active, 1800)]
     \<lparr>startTime = 1000, pausedDuration = Some 200, pausedAt = None\<rparr>) \<and>
   idle_run [(Idle, 1500)] \<lparr>startTime = 1000, pausedDuration = Some 200, pausedAt = None\<rparr>
     = \<lparr>startTime = 1000, pausedDuration = Some 200, pausedAt = Some 1500\<rparr> \<and>
   paused_at (entry_of (idle_run [(Idle, 1500)]
     \<lparr>startTime = 1000, pausedDuration = Some 200, pausedAt = None\<rparr>)) \<noteq> None \<and>
   getEffectiveElapsed 2000 (idle_run [(Idle, 1500)]
     \<lparr>startTime = 1000, pausedDuration = Some 200, pausedAt = None\<rparr>)
   = getEffectiveElapsed 3000 (idle_run [(Idle, 1500)]
     \<lparr>startTime = 1000, pausedDuration = Some 200, pausedAt = None\<rparr>) \<and>
   getEffectiveElapsed 3000 (idle_run [(Idle, 1500)]
     \<lparr>startTime = 1000, pausedDuration = Some 200, pausedAt = None\<rparr>) = 300"
proof -
  let ?td = "\<lparr>startTime = 1000, pausedDuration = Some 200, pausedAt = None\<rparr>"
  have r: "idle_run [(Idle, 1500), (Active, 1800)] ?td
             = \<lparr>startTime = 1000, pausedDuration = Some 500, pausedAt = None\<rparr>"
    by (simp add: idle_run_def pause_entry_def resume_entry_def truthy_num_def or_num_def)
  have p: "idle_run [(Idle, 1500)] ?td
             = \<lparr>startTime = 1000, pausedDuration = Some 200, pausedAt = Some 1500\<rparr>"
    by (simp add: idle_run_def pause_entry_def truthy_num_def)
  have r0: "paused_at (entry_of (idle_run [(Idle, 1500), (Active, 1800)] ?td)) = None"
    by (simp add: r entry_of_def or_null_def)
  have p0: "paused_at (entry_of (idle_run [(Idle, 1500)] ?td)) \<noteq> None"
    by (simp add: p entry_of_def or_null_def)
  have le: "(2000::int) \<le> 3000"
    by simp
  note t1 = elapsed_monotone_running_frozen_paused
    [of "[(Idle, 1500), (Active, 1800)]" ?td 2000 3000 Active]
  note t2 = elapsed_monotone_running_frozen_paused [of "[(Idle, 1500)]" ?td 2000 3000 Active]
  from t1 r0 le
  have m: "getEffectiveElapsed 2000 (idle_run [(Idle, 1500), (Active, 1800)] ?td)
             \<le> getEffectiveElapsed 3000 (idle_run [(Idle, 1500), (Active, 1800)] ?td)"
    by blast
  from t2 p0
  have f: "getEffectiveElapsed 2000 (idle_run [(Idle, 1500)] ?td)
             = getEffectiveElapsed 3000 (idle_run [(Idle, 1500)] ?td)"
    by blast
  have v: "getEffectiveElapsed 3000 (idle_run [(Idle, 1500)] ?td) = 300"
    by (simp add: p getEffectiveElapsed_def or_num_def)
  from r p r0 p0 le m f v show ?thesis
    by blast
qed

lemma pause_entry_paused:
  "paused_at (entry_of timerData) \<noteq> None \<Longrightarrow> pause_entry now timerData = timerData"
  by (simp add: pause_entry_def paused_at_entry_of)

lemma resume_entry_running:
  "paused_at (entry_of timerData) = None \<Longrightarrow> resume_entry now timerData = timerData"
  by (simp add: resume_entry_def paused_at_entry_of truthy_num_def split: option.splits)

lemma paused_after_pause_entry:
  "now \<noteq> 0 \<Longrightarrow> paused_at (entry_of (pause_entry now timerData)) \<noteq> None"
  by (simp add: pause_entry_def paused_at_entry_of truthy_num_def)

lemma running_after_resume_entry:
  "paused_at (entry_of (resume_entry now timerData)) = None"
  by (simp add: resume_entry_def paused_at_entry_of truthy_num_def split: option.splits)

lemma pause_entry_twice:
  "now1 \<noteq> 0 \<Longrightarrow> pause_entry now2 (pause_entry now1 timerData) = pause_entry now1 timerData"
  by (simp add: pause_entry_paused paused_after_pause_entry)

lemma resume_entry_twice:
  "resume_entry now2 (resume_entry now1 timerData) = resume_entry now1 timerData"
  by (simp add: resume_entry_running running_after_resume_entry)

text \<open>
  C5. Pausing an entry whose \<open>paused_at\<close> is set and resuming an entry whose
  \<open>paused_at\<close> is unset leave the stored value as it is. Hence a second resume changes
  nothing, for one entry and for the whole map, and neither does a second pause when the
  first one read a clock value other than 0 (the one instant JavaScript takes for unset).
\<close>

theorem pause_resume_idempotent:
  "(paused_at (entry_of timerData) \<noteq> None \<longrightarrow> pause_entry now timerData = timerData) \<and>
   (paused_at (entry_of timerData) = None \<longrightarrow> resume_entry now timerData = timerData) \<and>
   (now1 \<noteq> 0 \<longrightarrow>
      pause_entry now2 (pause_entry now1 timerData) = pause_entry now1 timerData \<and>
      pause_all now2 (pause_all now1 ts) = pause_all now1 ts) \<and>
   resume_entry now2 (resume_entry now1 timerData) = resume_entry now1 timerData \<and>
   resume_all now2 (resume_all now1 ts) = resume_all now1 ts"
  by (simp add: pause_entry_paused resume_entry_running pause_entry_twice resume_entry_twice
      pause_all_def resume_all_def case_prod_unfold)

theorem pause_resume_idempotent_witness:
  "paused_at (entry_of \<lparr>startTime = 1000, pausedDuration = Some 200, pausedAt = Some 1500\<rparr>)
     \<noteq> None \<and>
   pause_entry 2000 \<lparr>startTime = 1000, pausedDuration = Some 200, pausedAt = Some 1500\<rparr>
     = \<lparr>startTime = 1000, pausedDuration = Some 200, pausedAt = Some 1500\<rparr> \<and>
   paused_at (entry_of \<lparr>startTime = 1200, pausedDuration = Some 0, pausedAt = None\<rparr>) = None \<and>
   resume_entry 2000 \<lparr>startTime = 1200, pausedDuration = Some 0, pausedAt = None\<rparr>
     = \<lparr>startTime = 1200, pausedDuration = Some 0, pausedAt = None\<rparr> \<and>
   (1700::int) \<noteq> 0 \<and>
   pause_entry 2000 (pause_entry 1700 \<lparr>startTime = 1200, pausedDuration = Some 0, pausedAt = None\<rparr>)
     = \<lparr>startTime = 1200, pausedDuration = Some 0, pausedAt = Some 1700\<rparr> \<and>
   pause_all 2000 (pause_all 1700 example_timers)
     = [(''86a1'', \<lparr>startTime = 1000, pausedDuration = Some 200, pausedAt = Some 1500\<rparr>),
        (''86b2'', \<lparr>startTime = 1200, pausedDuration = Some 0, pausedAt = Some 1700\<rparr>)] \<and>
   resume_all 2000 (resume_all 1700 example_timers)
     = [(''86a1'', \<lparr>startTime = 1000, pausedDuration = Some 400, pausedAt = None\<rparr>),
        (''86b2'', \<lparr>startTime = 1200, pausedDuration = Some 0, pausedAt = None\<rparr>)]"
proof -
  let ?a = "\<lparr>startTime = 1000, pausedDuration = Some 200, pausedAt = Some 1500\<rparr>"
  let ?b = "\<lparr>startTime = 1200, pausedDuration = Some 0, pausedAt = None\<rparr>"
  have pa: "paused_at (entry_of ?a) \<noteq> None"
    by (simp add: entry_of_def or_null_def)
  have rb: "paused_at (entry_of ?b) = None"
    by (simp add: entry_of_def or_null_def)
  have nz: "(1700::int) \<noteq> 0"
    by simp
  have p1: "pause_entry 1700 ?b = \<lparr>startTime = 1200, pausedDuration = Some 0, pausedAt = Some 1700\<rparr>"
    by (simp add: pause_entry_def truthy_num_def)
  have pl: "pause_all 1700 example_timers
              = [(''86a1'', ?a),
                 (''86b2'', \<lparr>startTime = 1200, pausedDuration = Some 0, pausedAt = Some 1700\<rparr>)]"
    by (simp add: pause_all_def example_timers_def pause_entry_def truthy_num_def)
  have rl: "resume_all 1700 example_timers
              = [(''86a1'', \<lparr>startTime = 1000, pausedDuration = Some 400, pausedAt = None\<rparr>),
                 (''86b2'', ?b)]"
    by (simp add: resume_all_def example_timers_def resume_entry_def or_num_def)
  note t1 = pause_resume_idempotent [of ?a 2000 1700 2000 example_timers]
  note t2 = pause_resume_idempotent [of ?b 2000 1700 2000 example_timers]
  from t1 pa have "pause_entry 2000 ?a = ?a"
    by blast
  moreover from t2 rb have "resume_entry 2000 ?b = ?b"
    by blast
  moreover from t2 nz p1
  have "pause_entry 2000 (pause_entry 1700 ?b)
          = \<lparr>startTime = 1200, pausedDuration = Some 0, pausedAt = Some 1700\<rparr>"
    by simp
  moreover from t2 nz pl
  have "pause_all 2000 (pause_all 1700 example_timers)
          = [(''86a1'', ?a),
             (''86b2'', \<lparr>startTime = 1200, pausedDuration = Some 0, pausedAt = Some 1700\<rparr>)]"
    by simp
  moreover from t2 rl
  have "resume_all 2000 (resume_all 1700 example_timers)
          = [(''86a1'', \<lparr>startTime = 1000, pausedDuration = Some 400, pausedAt = None\<rparr>),
             (''86b2'', ?b)]"
    by simp
  ultimately show ?thesis
    using pa rb nz by blast
qed

text \<open>
  Consistency is what the code maintains: \<^verbatim>\<open>startTimer\<close> creates a consistent entry,
  and the idle listener keeps it consistent as long as the clock values it reads do not
  decrease.
\<close>

lemma consistent_at_start:
  "consistent_at now (entry_of \<lparr>startTime = now, pausedDuration = Some 0, pausedAt = None\<rparr>)"
  by (simp add: consistent_at_def entry_of_def or_num_def or_null_def)

lemma consistent_at_later:
  "consistent_at now e \<Longrightarrow> now \<le> now' \<Longrightarrow> consistent_at now' e"
  by (auto simp: consistent_at_def split: option.splits)

lemma consistent_at_pause_entry:
  "consistent_at now (entry_of timerData) \<Longrightarrow>
   consistent_at now (entry_of (pause_entry now timerData))"
  by (auto simp: consistent_at_def entry_of_def pause_entry_def truthy_num_def or_null_def
      split: option.splits if_splits)

lemma consistent_at_resume_entry:
  "consistent_at now (entry_of timerData) \<Longrightarrow>
   consistent_at now (entry_of (resume_entry now timerData))"
  by (auto simp: consistent_at_def entry_of_def resume_entry_def or_null_def or_num_def
      split: option.splits if_splits)

lemma consistent_at_idle_step:
  assumes "consistent_at now (entry_of timerData)" and "now \<le> now'"
  shows "consistent_at now' (entry_of (idle_step timerData (s, now')))"
proof -
  from assms have "consistent_at now' (entry_of timerData)"
    by (rule consistent_at_later)
  then show ?thesis
    by (cases s) (simp_all add: consistent_at_pause_entry consistent_at_resume_entry)
qed

lemma consistent_at_idle_run:
  "consistent_at now (entry_of timerData) \<Longrightarrow> sorted (now # map snd evs) \<Longrightarrow>
   consistent_at (last (now # map snd evs)) (entry_of (idle_run evs timerData))"
proof (induction evs arbitrary: now timerData)
  case Nil
  then show ?case
    by (simp add: idle_run_def)
next
  case (Cons ev evs)
  obtain s t where ev: "ev = (s, t)"
    by (cases ev)
  from Cons.prems ev have "now \<le> t" and later: "sorted (t # map snd evs)"
    by simp_all
  with Cons.prems(1) have "consistent_at t (entry_of (idle_step timerData (s, t)))"
    by (simp add: consistent_at_idle_step)
  from Cons.IH [OF this later] ev show ?case
    by (simp add: idle_run_def)
qed

lemma consistent_after_start:
  assumes "sorted (date_now h # map snd evs)"
  shows "\<exists>timerData. map_of (activeTimers (startTimer taskId h w)) taskId = Some timerData \<and>
           consistent_at (last (date_now h # map snd evs)) (entry_of (idle_run evs timerData))"
proof -
  let ?td = "\<lparr>startTime = date_now h, pausedDuration = Some 0, pausedAt = None\<rparr>"
  have "map_of (activeTimers (startTimer taskId h w)) taskId = Some ?td"
    by (simp add: activeTimers_startTimer update_conv')
  moreover have "consistent_at (last (date_now h # map snd evs)) (entry_of (idle_run evs ?td))"
    using consistent_at_start assms by (rule consistent_at_idle_run)
  ultimately show ?thesis
    by blast
qed

text \<open>
  An idle period of a running entry is taken out of its elapsed time, and the listener
  does to every stored entry what \<open>idle_step\<close> does to one.
\<close>

lemma idle_window_excluded:
  assumes "paused_at (entry_of timerData) = None" and "t1 \<noteq> 0"
  shows "getEffectiveElapsed now (resume_entry t2 (pause_entry t1 timerData))
           = getEffectiveElapsed (now - (t2 - t1)) timerData"
  using assms
  by (auto simp: getEffectiveElapsed_def resume_entry_def pause_entry_def paused_at_entry_of
      truthy_num_def or_num_def Let_def split: option.splits)

lemma onStateChanged_entries:
  assumes "storage_get_ok h" and "storage_set_ok h"
    and "local_activeTimers w = Some ts" and "ts \<noteq> []"
  shows "local_activeTimers (onStateChanged newState h w)
           = Some (map (\<lambda>(taskId, timerData).
                          (taskId, idle_step timerData (newState, date_now h))) ts)"
  using assms
  by (cases newState)
    (simp_all add: onStateChanged_def Let_def showRecordingBadge_def pause_all_def
      resume_all_def)

section \<open>The due-today window\<close>

lemma due_filter_iff:
  "due_filter includeOverdue todayStart todayEndMs t \<longleftrightarrow>
     (\<exists>s dueDate. due_date t = Some s \<and> parseInt10 s = Some dueDate \<and>
        (if includeOverdue then dueDate \<le> todayEndMs
         else todayStart \<le> dueDate \<and> dueDate \<le> todayEndMs))"
proof -
  have "parseInt10 [] = None"
    by (simp add: parseInt10_def)
  then show ?thesis
    by (auto simp: due_filter_def split: option.splits)
qed

lemma due_filter_teamName:
  "due_filter includeOverdue todayStart todayEndMs (t\<lparr>teamName := n\<rparr>)
     = due_filter includeOverdue todayStart todayEndMs t"
  by (simp add: due_filter_def)

lemma team_tasks_filtered:
  "x \<in> set (team_tasks includeOverdue h uid tm) \<Longrightarrow>
   due_filter includeOverdue (today_start h) (today_end h) x"
  by (auto simp: team_tasks_def Let_def due_filter_teamName
      split: fetched.splits option.splits if_splits)

lemma fetchTasksWithKey_filtered:
  "x \<in> set (fetchTasksWithKey apiKey includeOverdue h) \<Longrightarrow>
   due_filter includeOverdue (today_start h) (today_end h) x"
  by (auto simp: fetchTasksWithKey_def team_tasks_filtered
      split: fetched.splits option.splits if_splits)

lemma team_tasks_today:
  assumes "task_response h \<lparr>q_team = team_id tm, q_assignee = uid,
                             due_date_gt = Some (today_start h - 1),
                             due_date_lt = today_end h + 1\<rparr> = Json (Some ts)"
  shows "team_tasks False h uid tm
           = map (\<lambda>t. t\<lparr>teamName := Some (team_name tm)\<rparr>)
               (filter (due_filter False (today_start h) (today_end h)) ts)"
  using assms by (simp add: team_tasks_def)

lemma team_tasks_overdue:
  assumes "task_response h \<lparr>q_team = team_id tm, q_assignee = uid,
                             due_date_gt = None,
                             due_date_lt = today_end h + 1\<rparr> = Json (Some ts)"
  shows "team_tasks True h uid tm
           = map (\<lambda>t. t\<lparr>teamName := Some (team_name tm)\<rparr>)
               (filter (due_filter True (today_start h) (today_end h)) ts)"
  using assms by (simp add: team_tasks_def)

lemma fetchTasksWithKey_teams:
  assumes "truthy_str apiKey" and "user_response h = Json uid"
    and "team_response h = Json (Some tms)"
  shows "fetchTasksWithKey apiKey includeOverdue h
           = concat (map (team_tasks includeOverdue h uid) tms)"
  using assms by (simp add: fetchTasksWithKey_def)

text \<open>
  C6, as the specification states it, fails on a day that is not 24 hours long. On
  30 March 2025 in Berlin the clocks go forward: local midnight is 1743289200000 and
  23:59:59.999 is 1743371999999, 23 hours later. A task due at 1743373800000 (00:30
  on the next day) lies in \<open>[t, t + 24h)\<close> and is returned by the service, but it is
  in the result of neither mode.
\<close>

theorem due_today_window_counterexample:
  "today_start example_short_day_host = 1743289200000 \<and>
   today_end example_short_day_host = 1743371999999 \<and>
   parseInt10 ''1743373800000'' = Some 1743373800000 \<and>
   today_start example_short_day_host \<le> 1743373800000 \<and>
   1743373800000 < today_start example_short_day_host + 86400000 \<and>
   task_response example_short_day_host
     \<lparr>q_team = ''T1'', q_assignee = ''u1'',
       due_date_gt = Some (today_start example_short_day_host - 1),
       due_date_lt = today_end example_short_day_host + 1\<rparr>
     = Json (Some [\<lparr>id' = ''n'', name = ''half past midnight'',
                     due_date = Some ''1743373800000'', teamName = None\<rparr>]) \<and>
   \<lparr>id' = ''n'', name = ''half past midnight'', due_date = Some ''1743373800000'',
     teamName = Some ''Home''\<rparr>
     \<notin> set (fetchTasksWithKey (Some ''pk_1'') False example_short_day_host) \<and>
   \<lparr>id' = ''n'', name = ''half past midnight'', due_date = Some ''1743373800000'',
     teamName = Some ''Home''\<rparr>
     \<notin> set (fetchTasksWithKey (Some ''pk_1'') True example_short_day_host)"
proof -
  have p: "parseInt10 ''1743373800000'' = Some 1743373800000"
    by (simp add: parseInt10_def is_ws_def is_digit_def digit_val_def)
  show ?thesis
    by (simp add: p fetchTasksWithKey_def team_tasks_def due_filter_def truthy_str_def
        example_short_day_host_def example_day_host_def)
qed

text \<open>
  C6, amended. The user and team requests succeeded and \<open>tm\<close> is one of the teams. A
  task the service returned for \<open>tm\<close> whose due date reads as the number \<open>d\<close> is in
  the result, labelled with the team's name, exactly when \<open>d\<close> lies between local
  midnight and the last millisecond of the local day (23:59:59.999), both included, in
  the mode without overdue tasks, and exactly when \<open>d\<close> is at most that last
  millisecond in the mode with them. On a day of 24 hours the last millisecond is
  \<open>today_start + 24h - 1\<close> and the two conditions are \<open>today_start \<le> d < today_start
  + 24h\<close> and \<open>d < today_start + 24h\<close>. In both modes every task of the result has a
  due date that reads as a number.
\<close>

theorem due_today_window:
  assumes key: "truthy_str apiKey"
    and user: "user_response h = Json uid"
    and teams: "team_response h = Json (Some tms)"
    and tm: "tm \<in> set tms"
    and today: "task_response h \<lparr>q_team = team_id tm, q_assignee = uid,
                                  due_date_gt = Some (today_start h - 1),
                                  due_date_lt = today_end h + 1\<rparr> = Json (Some ts)"
    and overdue: "task_response h \<lparr>q_team = team_id tm, q_assignee = uid,
                                    due_date_gt = None,
                                    due_date_lt = today_end h + 1\<rparr> = Json (Some ts')"
  shows "(\<forall>t s d. t \<in> set ts \<and> due_date t = Some s \<and> parseInt10 s = Some d \<longrightarrow>
            (t\<lparr>teamName := Some (team_name tm)\<rparr> \<in> set (fetchTasksWithKey apiKey False h)
               \<longleftrightarrow> today_start h \<le> d \<and> d \<le> today_end h)) \<and>
         (\<forall>t s d. t \<in> set ts' \<and> due_date t = Some s \<and> parseInt10 s = Some d \<longrightarrow>
            (t\<lparr>teamName := Some (team_name tm)\<rparr> \<in> set (fetchTasksWithKey apiKey True h)
               \<longleftrightarrow> d \<le> today_end h)) \<and>
         (today_end h = today_start h + 86400000 - 1 \<longrightarrow>
            (\<forall>t s d. t \<in> set ts \<and> due_date t = Some s \<and> parseInt10 s = Some d \<longrightarrow>
               (t\<lparr>teamName := Some (team_name tm)\<rparr> \<in> set (fetchTasksWithKey apiKey False h)
                  \<longleftrightarrow> today_start h \<le> d \<and> d < today_start h + 86400000)) \<and>
            (\<forall>t s d. t \<in> set ts' \<and> due_date t = Some s \<and> parseInt10 s = Some d \<longrightarrow>
               (t\<lparr>teamName := Some (team_name tm)\<rparr> \<in> set (fetchTasksWithKey apiKey True h)
                  \<longleftrightarrow> d < today_start h + 86400000))) \<and>
         (\<forall>includeOverdue x. x \<in> set (fetchTasksWithKey apiKey includeOverdue h) \<longrightarrow>
            (\<exists>s d. due_date x = Some s \<and> parseInt10 s = Some d))"
proof -
  have a: "t\<lparr>teamName := Some (team_name tm)\<rparr> \<in> set (fetchTasksWithKey apiKey False h)
             \<longleftrightarrow> today_start h \<le> d \<and> d \<le> today_end h"
    if t: "t \<in> set ts \<and> due_date t = Some s \<and> parseInt10 s = Some d" for t s d
  proof -
    let ?x = "t\<lparr>teamName := Some (team_name tm)\<rparr>"
    have f: "due_filter False (today_start h) (today_end h) t
               \<longleftrightarrow> today_start h \<le> d \<and> d \<le> today_end h"
      using t by (auto simp: due_filter_iff)
    show ?thesis
    proof
      assume "?x \<in> set (fetchTasksWithKey apiKey False h)"
      then have "due_filter False (today_start h) (today_end h) ?x"
        by (rule fetchTasksWithKey_filtered)
      then show "today_start h \<le> d \<and> d \<le> today_end h"
        using f by (simp add: due_filter_teamName)
    next
      assume "today_start h \<le> d \<and> d \<le> today_end h"
      with f t have "?x \<in> set (team_tasks False h uid tm)"
        by (simp add: team_tasks_today [OF today])
      with tm show "?x \<in> set (fetchTasksWithKey apiKey False h)"
        by (auto simp: fetchTasksWithKey_teams [OF key user teams])
    qed
  qed
  have b: "t\<lparr>teamName := Some (team_name tm)\<rparr> \<in> set (fetchTasksWithKey apiKey True h)
             \<longleftrightarrow> d \<le> today_end h"
    if t: "t \<in> set ts' \<and> due_date t = Some s \<and> parseInt10 s = Some d" for t s d
  proof -
    let ?x = "t\<lparr>teamName := Some (team_name tm)\<rparr>"
    have f: "due_filter True (today_start h) (today_end h) t \<longleftrightarrow> d \<le> today_end h"
      using t by (auto simp: due_filter_iff)
    show ?thesis
    proof
      assume "?x \<in> set (fetchTasksWithKey apiKey True h)"
      then have "due_filter True (today_start h) (today_end h) ?x"
        by (rule fetchTasksWithKey_filtered)
      then show "d \<le> today_end h"
        using f by (simp add: due_filter_teamName)
    next
      assume "d \<le> today_end h"
      with f t have "?x \<in> set (team_tasks True h uid tm)"
        by (simp add: team_tasks_overdue [OF overdue])
      with tm show "?x \<in> set (fetchTasksWithKey apiKey True h)"
        by (auto simp: fetchTasksWithKey_teams [OF key user teams])
    qed
  qed
  have c: "\<exists>s d. due_date x = Some s \<and> parseInt10 s = Some d"
    if "x \<in> set (fetchTasksWithKey apiKey includeOverdue h)" for includeOverdue x
  proof -
    from that have "due_filter includeOverdue (today_start h) (today_end h) x"
      by (rule fetchTasksWithKey_filtered)
    then show ?thesis
      by (auto simp: due_filter_iff)
  qed
  have a24: "t\<lparr>teamName := Some (team_name tm)\<rparr> \<in> set (fetchTasksWithKey apiKey False h)
               \<longleftrightarrow> today_start h \<le> d \<and> d < today_start h + 86400000"
    if "today_end h = today_start h + 86400000 - 1"
      and "t \<in> set ts \<and> due_date t = Some s \<and> parseInt10 s = Some d" for t s d
    using a [OF that(2)] that(1) by auto
  have b24: "t\<lparr>teamName := Some (team_name tm)\<rparr> \<in> set (fetchTasksWithKey apiKey True h)
               \<longleftrightarrow> d < today_start h + 86400000"
    if "today_end h = today_start h + 86400000 - 1"
      and "t \<in> set ts' \<and> due_date t = Some s \<and> parseInt10 s = Some d" for t s d
    using b [OF that(2)] that(1) by auto
  from a b c a24 b24 show ?thesis
    by blast
qed

theorem due_today_window_witness:
  "truthy_str (Some ''pk_1'') \<and>
   user_response example_day_host = Json ''u1'' \<and>
   team_response example_day_host = Json (Some [\<lparr>team_id = ''T1'', team_name = ''Home''\<rparr>]) \<and>
   today_start example_day_host = 1762041600000 \<and>
   today_end example_day_host = today_start example_day_host + 86400000 - 1 \<and>
   \<lparr>id' = ''a'', name = ''before midnight'', due_date = Some ''1762041599999'',
     teamName = Some ''Home''\<rparr>
     \<notin> set (fetchTasksWithKey (Some ''pk_1'') False example_day_host) \<and>
   \<lparr>id' = ''b'', name = ''at midnight'', due_date = Some ''1762041600000'',
     teamName = Some ''Home''\<rparr>
     \<in> set (fetchTasksWithKey (Some ''pk_1'') False example_day_host) \<and>
   \<lparr>id' = ''c'', name = ''after midnight'', due_date = Some ''1762041600001'',
     teamName = Some ''Home''\<rparr>
     \<in> set (fetchTasksWithKey (Some ''pk_1'') False example_day_host) \<and>
   \<lparr>id' = ''e'', name = ''next midnight'', due_date = Some ''1762128000000'',
     teamName = Some ''Home''\<rparr>
     \<notin> set (fetchTasksWithKey (Some ''pk_1'') False example_day_host) \<and>
   \<lparr>id' = ''a'', name = ''before midnight'', due_date = Some ''1762041599999'',
     teamName = Some ''Home''\<rparr>
     \<in> set (fetchTasksWithKey (Some ''pk_1'') True example_day_host) \<and>
   \<lparr>id' = ''e'', name = ''next midnight'', due_date = Some ''1762128000000'',
     teamName = Some ''Home''\<rparr>
     \<notin> set (fetchTasksWithKey (Some ''pk_1'') True example_day_host) \<and>
   \<lparr>id' = ''d'', name = ''no due date'', due_date = None, teamName = Some ''Home''\<rparr>
     \<notin> set (fetchTasksWithKey (Some ''pk_1'') True example_day_host)"
proof -
  let ?h = example_day_host
  let ?tm = "\<lparr>team_id = ''T1'', team_name = ''Home''\<rparr>"
  let ?a = "\<lparr>id' = ''a'', name = ''before midnight'', due_date = Some ''1762041599999'',
              teamName = None\<rparr>"
  let ?b = "\<lparr>id' = ''b'', name = ''at midnight'', due_date = Some ''1762041600000'',
              teamName = None\<rparr>"
  let ?c = "\<lparr>id' = ''c'', name = ''after midnight'', due_date = Some ''1762041600001'',
              teamName = None\<rparr>"
  let ?d = "\<lparr>id' = ''d'', name = ''no due date'', due_date = None, teamName = None\<rparr>"
  let ?e = "\<lparr>id' = ''e'', name = ''next midnight'', due_date = Some ''1762128000000'',
              teamName = None\<rparr>"
  have key: "truthy_str (Some ''pk_1'')"
    by (simp add: truthy_str_def)
  have user: "user_response ?h = Json ''u1''"
    by (simp add: example_day_host_def)
  have teams: "team_response ?h = Json (Some [?tm])"
    by (simp add: example_day_host_def)
  have tm: "?tm \<in> set [?tm]"
    by simp
  have start: "today_start ?h = 1762041600000"
    by (simp add: example_day_host_def)
  have day: "today_end ?h = today_start ?h + 86400000 - 1"
    by (simp add: example_day_host_def)
  have today: "task_response ?h \<lparr>q_team = team_id ?tm, q_assignee = ''u1'',
                                  due_date_gt = Some (today_start ?h - 1),
                                  due_date_lt = today_end ?h + 1\<rparr> = Json (Some example_fetched)"
    by (simp add: example_day_host_def)
  have overdue: "task_response ?h \<lparr>q_team = team_id ?tm, q_assignee = ''u1'',
                                    due_date_gt = None,
                                    due_date_lt = today_end ?h + 1\<rparr> = Json (Some example_fetched)"
    by (simp add: example_day_host_def)
  have pa: "parseInt10 ''1762041599999'' = Some 1762041599999"
    and pb: "parseInt10 ''1762041600000'' = Some 1762041600000"
    and pc: "parseInt10 ''1762041600001'' = Some 1762041600001"
    and pe: "parseInt10 ''1762128000000'' = Some 1762128000000"
    by (simp_all add: parseInt10_def is_ws_def is_digit_def digit_val_def)
  have mem: "?a \<in> set example_fetched" "?b \<in> set example_fetched"
    "?c \<in> set example_fetched" "?e \<in> set example_fetched"
    by (simp_all add: example_fetched_def)
  note w = due_today_window [OF key user teams tm today overdue]
  note w24 = w [THEN conjunct2, THEN conjunct2, THEN conjunct1, THEN mp, OF day]
  note w1 = w24 [THEN conjunct1, rule_format]
  note w2 = w24 [THEN conjunct2, rule_format]
  note w3 = w [THEN conjunct2, THEN conjunct2, THEN conjunct2, rule_format]
  note w4 = w [THEN conjunct1, rule_format]
  note w5 = w [THEN conjunct2, THEN conjunct1, rule_format]
  have "?a\<lparr>teamName := Some (team_name ?tm)\<rparr> \<notin> set (fetchTasksWithKey (Some ''pk_1'') False ?h)"
    using w1 [of ?a "''1762041599999''" 1762041599999] mem pa start by simp
  moreover
  have "?b\<lparr>teamName := Some (team_name ?tm)\<rparr> \<in> set (fetchTasksWithKey (Some ''pk_1'') False ?h)"
    using w1 [of ?b "''1762041600000''" 1762041600000] mem pb start by simp
  moreover
  have "?c\<lparr>teamName := Some (team_name ?tm)\<rparr> \<in> set (fetchTasksWithKey (Some ''pk_1'') False ?h)"
    using w1 [of ?c "''1762041600001''" 1762041600001] mem pc start by simp
  moreover
  have "?e\<lparr>teamName := Some (team_name ?tm)\<rparr> \<notin> set (fetchTasksWithKey (Some ''pk_1'') False ?h)"
    using w4 [of ?e "''1762128000000''" 1762128000000] mem pe start day by simp
  moreover
  have "?a\<lparr>teamName := Some (team_name ?tm)\<rparr> \<in> set (fetchTasksWithKey (Some ''pk_1'') True ?h)"
    using w2 [of ?a "''1762041599999''" 1762041599999] mem pa start by simp
  moreover
  have "?e\<lparr>teamName := Some (team_name ?tm)\<rparr> \<notin> set (fetchTasksWithKey (Some ''pk_1'') True ?h)"
    using w5 [of ?e "''1762128000000''" 1762128000000] mem pe start day by simp
  moreover
  have "?d\<lparr>teamName := Some (team_name ?tm)\<rparr> \<notin> set (fetchTasksWithKey (Some ''pk_1'') True ?h)"
    using w3 [of "?d\<lparr>teamName := Some (team_name ?tm)\<rparr>" True] by auto
  ultimately show ?thesis
    using key user teams start day by simp
qed

section \<open>The notification tick\<close>

lemma parseInt10_Nil: "parseInt10 [] = None"
  by (simp add: parseInt10_def)

lemma notify_step_cases:
  "\<exists>n. notificationId n = id' t \<and>
       notify_step now ms w t =
         (if due_within now ms t \<and> id' t \<notin> set (notifiedTasks w)
          then w\<lparr>created := created w @ [n], notifiedTasks := notifiedTasks w @ [id' t]\<rparr>
          else w)"
proof (cases "due_within now ms t \<and> id' t \<notin> set (notifiedTasks w)")
  case True
  then obtain s d where sd: "due_date t = Some s" "parseInt10 s = Some d"
    "0 < d - now" "d - now \<le> ms"
    by (auto simp: due_within_def split: option.splits)
  then have "s \<noteq> []"
    using parseInt10_Nil by auto
  with sd True
  have "notify_step now ms w t =
          w\<lparr>created := created w @
               [\<lparr>notificationId = id' t, taskName = name t,
                 minutes = (d - now + 30000) div 60000\<rparr>],
            notifiedTasks := notifiedTasks w @ [id' t]\<rparr>"
    by (simp add: notify_step_def Let_def)
  with True show ?thesis
    by (intro exI [of _ "\<lparr>notificationId = id' t, taskName = name t,
                          minutes = (d - now + 30000) div 60000\<rparr>"]) simp
next
  case False
  then have "notify_step now ms w t = w"
    by (auto simp: notify_step_def due_within_def Let_def split: option.splits)
  with False show ?thesis
    by (intro exI [of _ "\<lparr>notificationId = id' t, taskName = name t, minutes = 0\<rparr>"]) simp
qed

lemma notify_loop:
  "\<exists>new. created (foldl (notify_step now ms) w ts) = created w @ new \<and>
         notifiedTasks (foldl (notify_step now ms) w ts)
           = notifiedTasks w @ map notificationId new \<and>
         distinct (map notificationId new) \<and>
         set (map notificationId new)
           = {id' t |t. t \<in> set ts \<and> due_within now ms t} - set (notifiedTasks w)"
proof (induction ts rule: rev_induct)
  case Nil
  show ?case
    by (intro exI [of _ "[]"]) simp
next
  case (snoc t ts)
  let ?w1 = "foldl (notify_step now ms) w ts"
  from snoc obtain new where new: "created ?w1 = created w @ new"
    "notifiedTasks ?w1 = notifiedTasks w @ map notificationId new"
    "distinct (map notificationId new)"
    "set (map notificationId new)
       = {id' t |t. t \<in> set ts \<and> due_within now ms t} - set (notifiedTasks w)"
    by blast
  obtain n where n: "notificationId n = id' t"
    "notify_step now ms ?w1 t =
       (if due_within now ms t \<and> id' t \<notin> set (notifiedTasks ?w1)
        then ?w1\<lparr>created := created ?w1 @ [n], notifiedTasks := notifiedTasks ?w1 @ [id' t]\<rparr>
        else ?w1)"
    using notify_step_cases by blast
  show ?case
  proof (cases "due_within now ms t \<and> id' t \<notin> set (notifiedTasks ?w1)")
    case True
    with n new show ?thesis
      by (intro exI [of _ "new @ [n]"]) auto
  next
    case False
    with n new show ?thesis
      by (intro exI [of _ new]) auto
  qed
qed

lemma find_id_distinct:
  "distinct (map id' ts) \<Longrightarrow> t \<in> set ts \<Longrightarrow> find (\<lambda>x. id' x = id' t) ts = Some t"
  by (induction ts) (auto simp: image_iff)

lemma evicted_iff:
  assumes "distinct (map id' tasks)"
  shows "evicted tasks now k \<longleftrightarrow> \<not> (\<exists>t\<in>set tasks. id' t = k \<and> \<not> past_due now t)"
proof (cases "\<exists>t\<in>set tasks. id' t = k")
  case False
  then have "find (\<lambda>t. id' t = k) tasks = None"
    by (auto simp: find_None_iff)
  with False show ?thesis
    by (auto simp: evicted_def)
next
  case True
  then obtain t where t: "t \<in> set tasks" "id' t = k"
    by blast
  with assms have f: "find (\<lambda>x. id' x = k) tasks = Some t"
    using find_id_distinct by blast
  have u: "t' = t" if "t' \<in> set tasks" "id' t' = k" for t'
    using that t assms by (auto simp: distinct_map dest: inj_onD)
  have "evicted tasks now k \<longleftrightarrow> past_due now t"
    using f parseInt10_Nil by (auto simp: evicted_def past_due_def split: option.splits)
  with t u show ?thesis
    by blast
qed

lemma due_within_not_past: "due_within now ms t \<Longrightarrow> \<not> past_due now t"
  by (auto simp: due_within_def past_due_def split: option.splits)

lemma checkDueNotifications_enabled:
  assumes "storage_get_ok h" and "truthy_str (sync_clickupApiKey w)"
    and "notifications (features (case sync_settings w of None \<Rightarrow> defaultSettings | Some s \<Rightarrow> s))"
    and "notificationMinutes (case sync_settings w of None \<Rightarrow> defaultSettings | Some s \<Rightarrow> s)
           = Some m"
    and "m \<noteq> 0"
  shows "checkDueNotifications h w =
           (let tasks = fetchTasksWithKey (sync_clickupApiKey w) False h;
                w1 = foldl (notify_step (date_now h) (m * 60000)) w tasks
            in w1\<lparr>notifiedTasks :=
                    filter (\<lambda>taskId. \<not> evicted tasks (date_now h) taskId) (notifiedTasks w1)\<rparr>)"
  using assms by (simp add: checkDueNotifications_def Let_def or_num_def mult.commute)

lemma checkDueNotifications_fresh:
  "\<exists>new. created (checkDueNotifications h w) = created w @ new \<and>
         set (map notificationId new) \<inter> set (notifiedTasks w) = {}"
proof -
  let ?cs = "case sync_settings w of None \<Rightarrow> defaultSettings | Some s \<Rightarrow> s"
  let ?ms = "or_num (notificationMinutes ?cs) 15 * 60 * 1000"
  let ?tasks = "fetchTasksWithKey (sync_clickupApiKey w) False h"
  show ?thesis
  proof (cases "storage_get_ok h \<and> truthy_str (sync_clickupApiKey w) \<and> notifications (features ?cs)")
    case True
    obtain new where "created (foldl (notify_step (date_now h) ?ms) w ?tasks) = created w @ new"
      "set (map notificationId new)
         = {id' t |t. t \<in> set ?tasks \<and> due_within (date_now h) ?ms t} - set (notifiedTasks w)"
      using notify_loop by blast
    with True show ?thesis
      by (intro exI [of _ new]) (auto simp: checkDueNotifications_def Let_def)
  next
    case False
    then show ?thesis
      by (intro exI [of _ "[]"]) (auto simp: checkDueNotifications_def Let_def)
  qed
qed

text \<open>
  C7. Notifications are enabled, a credential is stored, the lead time is \<open>m \<ge> 1\<close>
  minutes and the fetched tasks have distinct ids. Then one tick creates notifications
  for exactly the ids of fetched tasks whose time until due lies in \<open>(0, m * 60000]\<close>
  and that are not in the set, each once. The set afterwards holds the ids that were in
  it or were notified and whose task is fetched and not past due; every id notified in
  this tick is among them. Whatever the host answers at the next tick, that tick
  creates no notification for an id notified in this one.
\<close>

theorem notification_tick:
  assumes get: "storage_get_ok h"
    and key: "truthy_str (sync_clickupApiKey w)"
    and on: "notifications (features (case sync_settings w of None \<Rightarrow> defaultSettings
                                        | Some s \<Rightarrow> s))"
    and minutes: "notificationMinutes (case sync_settings w of None \<Rightarrow> defaultSettings
                                        | Some s \<Rightarrow> s) = Some m"
    and m: "1 \<le> m"
    and tasks: "tasks = fetchTasksWithKey (sync_clickupApiKey w) False h"
    and ids: "distinct (map id' tasks)"
  shows "\<exists>new.
           created (checkDueNotifications h w) = created w @ new \<and>
           distinct (map notificationId new) \<and>
           set (map notificationId new)
             = {id' t |t. t \<in> set tasks \<and> due_within (date_now h) (m * 60000) t}
                 - set (notifiedTasks w) \<and>
           set (notifiedTasks (checkDueNotifications h w))
             = {k \<in> set (notifiedTasks w) \<union> set (map notificationId new).
                  \<exists>t\<in>set tasks. id' t = k \<and> \<not> past_due (date_now h) t} \<and>
           set (map notificationId new) \<subseteq> set (notifiedTasks (checkDueNotifications h w)) \<and>
           (\<forall>h'. \<exists>new'.
              created (checkDueNotifications h' (checkDueNotifications h w))
                = created (checkDueNotifications h w) @ new' \<and>
              set (map notificationId new') \<inter> set (map notificationId new) = {})"
proof -
  let ?now = "date_now h"
  let ?w1 = "foldl (notify_step ?now (m * 60000)) w tasks"
  let ?w2 = "checkDueNotifications h w"
  from m have "m \<noteq> 0"
    by simp
  with get key on minutes tasks
  have w2: "?w2 = ?w1\<lparr>notifiedTasks :=
                        filter (\<lambda>taskId. \<not> evicted tasks ?now taskId) (notifiedTasks ?w1)\<rparr>"
    by (simp add: checkDueNotifications_enabled Let_def)
  obtain new where new: "created ?w1 = created w @ new"
    "notifiedTasks ?w1 = notifiedTasks w @ map notificationId new"
    "distinct (map notificationId new)"
    "set (map notificationId new)
       = {id' t |t. t \<in> set tasks \<and> due_within ?now (m * 60000) t} - set (notifiedTasks w)"
    using notify_loop by blast
  have c: "created ?w2 = created w @ new"
    using w2 new(1) by simp
  have n: "set (notifiedTasks ?w2)
             = {k \<in> set (notifiedTasks w) \<union> set (map notificationId new).
                  \<exists>t\<in>set tasks. id' t = k \<and> \<not> past_due ?now t}"
    using w2 new(2) evicted_iff [OF ids] by auto
  have s: "set (map notificationId new) \<subseteq> set (notifiedTasks ?w2)"
  proof
    fix k
    assume k: "k \<in> set (map notificationId new)"
    with new(4) obtain t where "t \<in> set tasks" "id' t = k" "due_within ?now (m * 60000) t"
      by auto
    then have "\<exists>t\<in>set tasks. id' t = k \<and> \<not> past_due ?now t"
      using due_within_not_past by blast
    with k n show "k \<in> set (notifiedTasks ?w2)"
      by simp
  qed
  have later: "\<exists>new'. created (checkDueNotifications h' ?w2) = created ?w2 @ new' \<and>
                 set (map notificationId new') \<inter> set (map notificationId new) = {}" for h'
  proof -
    obtain new' where "created (checkDueNotifications h' ?w2) = created ?w2 @ new'"
      "set (map notificationId new') \<inter> set (notifiedTasks ?w2) = {}"
      using checkDueNotifications_fresh by blast
    with s show ?thesis
      by (intro exI [of _ new']) auto
  qed
  from c new(3) new(4) n s later show ?thesis
    by (intro exI [of _ new]) simp
qed

lemma example_tick_fetch:
  "fetchTasksWithKey (Some ''pk_1'') False example_tick_host
     = [\<lparr>id' = ''p'', name = ''due in ten minutes'', due_date = Some ''1762078200000'',
          teamName = Some ''Home''\<rparr>,
        \<lparr>id' = ''q'', name = ''due in twenty minutes'', due_date = Some ''1762078800000'',
          teamName = Some ''Home''\<rparr>,
        \<lparr>id' = ''r'', name = ''due ten minutes ago'', due_date = Some ''1762077000000'',
          teamName = Some ''Home''\<rparr>]"
  by (simp add: fetchTasksWithKey_def team_tasks_def due_filter_def truthy_str_def
      example_tick_host_def example_day_host_def example_due_soon_def
      parseInt10_def is_ws_def is_digit_def digit_val_def)

lemma example_tick_first:
  "checkDueNotifications example_tick_host example_tick_world
     = example_tick_world
         \<lparr>created := [\<lparr>notificationId = ''p'', taskName = ''due in ten minutes'', minutes = 10\<rparr>],
          notifiedTasks := [''p'']\<rparr>"
proof -
  have h: "storage_get_ok example_tick_host" "date_now example_tick_host = 1762077600000"
    by (simp_all add: example_tick_host_def example_day_host_def)
  have k: "sync_clickupApiKey example_tick_world = Some ''pk_1''"
    "sync_settings example_tick_world
       = Some (defaultSettings\<lparr>features := (features defaultSettings)\<lparr>notifications := True\<rparr>\<rparr>)"
    "notifiedTasks example_tick_world = [''r'', ''z'']"
    "created example_tick_world = []"
    by (simp_all add: example_tick_world_def example_world_def)
  have p: "parseInt10 ''1762078200000'' = Some 1762078200000"
    "parseInt10 ''1762078800000'' = Some 1762078800000"
    "parseInt10 ''1762077000000'' = Some 1762077000000"
    by (simp_all add: parseInt10_def is_ws_def is_digit_def digit_val_def)
  show ?thesis
    by (simp add: checkDueNotifications_def h k example_tick_fetch Let_def p
        notify_step_def evicted_def truthy_str_def or_num_def defaultSettings_def)
qed

theorem notification_tick_witness:
  "storage_get_ok example_tick_host \<and>
   truthy_str (sync_clickupApiKey example_tick_world) \<and>
   notifications (features (case sync_settings example_tick_world of
                              None \<Rightarrow> defaultSettings | Some s \<Rightarrow> s)) \<and>
   notificationMinutes (case sync_settings example_tick_world of
                          None \<Rightarrow> defaultSettings | Some s \<Rightarrow> s) = Some 15 \<and>
   (1::int) \<le> 15 \<and>
   distinct (map id' (fetchTasksWithKey (sync_clickupApiKey example_tick_world) False
                        example_tick_host)) \<and>
   created (checkDueNotifications example_tick_host example_tick_world)
     = [\<lparr>notificationId = ''p'', taskName = ''due in ten minutes'', minutes = 10\<rparr>] \<and>
   notifiedTasks (checkDueNotifications example_tick_host example_tick_world) = [''p''] \<and>
   filter (\<lambda>n. notificationId n = ''p'')
     (created (checkDueNotifications
                 (example_tick_host\<lparr>date_now := date_now example_tick_host + 60000\<rparr>)
                 (checkDueNotifications example_tick_host example_tick_world)))
     = [\<lparr>notificationId = ''p'', taskName = ''due in ten minutes'', minutes = 10\<rparr>]"
proof -
  let ?h = example_tick_host
  let ?w = example_tick_world
  let ?w2 = "checkDueNotifications ?h ?w"
  let ?h' = "?h\<lparr>date_now := date_now ?h + 60000\<rparr>"
  let ?n = "\<lparr>notificationId = ''p'', taskName = ''due in ten minutes'', minutes = 10\<rparr>"
  have get: "storage_get_ok ?h"
    by (simp add: example_tick_host_def example_day_host_def)
  have k: "sync_clickupApiKey ?w = Some ''pk_1''" "created ?w = []"
    by (simp_all add: example_tick_world_def example_world_def)
  have key: "truthy_str (sync_clickupApiKey ?w)"
    by (simp add: k truthy_str_def)
  have on: "notifications (features (case sync_settings ?w of
                                       None \<Rightarrow> defaultSettings | Some s \<Rightarrow> s))"
    by (simp add: example_tick_world_def)
  have minutes: "notificationMinutes (case sync_settings ?w of
                                        None \<Rightarrow> defaultSettings | Some s \<Rightarrow> s) = Some 15"
    by (simp add: example_tick_world_def defaultSettings_def)
  have m: "(1::int) \<le> 15"
    by simp
  have ids: "distinct (map id' (fetchTasksWithKey (sync_clickupApiKey ?w) False ?h))"
    by (simp add: k example_tick_fetch)
  have c: "created ?w2 = [?n]" and nt: "notifiedTasks ?w2 = [''p'']"
    by (simp_all add: example_tick_first)
  from notification_tick [OF get key on minutes m refl ids]
  obtain new where new: "created ?w2 = created ?w @ new"
    and later: "\<forall>h'. \<exists>new'. created (checkDueNotifications h' ?w2) = created ?w2 @ new' \<and>
                  set (map notificationId new') \<inter> set (map notificationId new) = {}"
    by blast
  from new c k have "new = [?n]"
    by simp
  with later obtain new' where new': "created (checkDueNotifications ?h' ?w2) = created ?w2 @ new'"
    "set (map notificationId new') \<inter> {''p''} = {}"
    by fastforce
  from new'(2) have "filter (\<lambda>n. notificationId n = ''p'') new' = []"
    by (force simp: filter_empty_conv)
  with new'(1) c
  have "filter (\<lambda>n. notificationId n = ''p'') (created (checkDueNotifications ?h' ?w2)) = [?n]"
    by simp
  with get key on minutes m ids c nt show ?thesis
    by blast
qed

section \<open>The idle detection threshold\<close>

text \<open>
  The detector is armed by \<^verbatim>\<open>onInstalled\<close> and \<^verbatim>\<open>onStartup\<close> with the constant; no
  other handler touches it.
\<close>

lemma detectionInterval_updateBadgeCount:
  "detectionInterval (updateBadgeCount h w) = detectionInterval w"
  by (simp add: updateBadgeCount_def showRecordingBadge_def Let_def)

lemma detectionInterval_onMessage:
  "detectionInterval (onMessage msg h w) = detectionInterval w"
  by (cases msg) (simp_all add: detectionInterval_updateBadgeCount showRecordingBadge_def)

lemma detectionInterval_checkPersistedTimers:
  "detectionInterval (checkPersistedTimers h w) = detectionInterval w"
  by (simp add: checkPersistedTimers_def detectionInterval_updateBadgeCount
      showRecordingBadge_def Let_def)

lemma detectionInterval_armed:
  "detectionInterval (onInstalled h w) = Some 60"
  "detectionInterval (onStartup h w) = Some 60"
  by (simp_all add: onInstalled_def onStartup_def detectionInterval_checkPersistedTimers
      IDLE_THRESHOLD_SECONDS_def)

lemma detectionInterval_saveFeatures:
  "detectionInterval (saveFeatures form h w) = detectionInterval w"
  by (simp add: saveFeatures_def Let_def)

lemma detectionInterval_onStateChanged:
  "detectionInterval (onStateChanged newState h w) = detectionInterval w"
  by (cases newState) (simp_all add: onStateChanged_def showRecordingBadge_def Let_def)

lemma detectionInterval_checkDueNotifications:
  "detectionInterval (checkDueNotifications h w) = detectionInterval w"
proof -
  have step: "detectionInterval (notify_step now ms w' t) = detectionInterval w'" for now ms w' t
    by (simp add: notify_step_def Let_def split: option.splits)
  have loop: "detectionInterval (foldl (notify_step now ms) w' ts) = detectionInterval w'"
    for now ms w' ts
    by (induction ts arbitrary: w') (simp_all add: step)
  show ?thesis
    by (simp add: checkDueNotifications_def Let_def loop)
qed

text \<open>
  C9 does not hold of background.js. The browser starts and the detector is armed with
  60 seconds; the user saves an idle threshold of 5 minutes, which is stored and
  announced by \<^verbatim>\<open>SETTINGS_UPDATED\<close>; after the background has handled the message
  the detector is still armed with 60 seconds, not 300.
\<close>

theorem idle_threshold_setting_ignored:
  "detectionInterval (onStartup example_host (example_world\<lparr>detectionInterval := None\<rparr>))
     = Some 60 \<and>
   idleThresholdMinutes
     (case sync_settings
             (saveFeatures example_form example_host
                (onStartup example_host (example_world\<lparr>detectionInterval := None\<rparr>))) of
        None \<Rightarrow> defaultSettings | Some s \<Rightarrow> s) = Some 5 \<and>
   messages (saveFeatures example_form example_host
               (onStartup example_host (example_world\<lparr>detectionInterval := None\<rparr>)))
     = [SETTINGS_UPDATED] \<and>
   detectionInterval
     (onMessage SETTINGS_UPDATED example_host
        (saveFeatures example_form example_host
           (onStartup example_host (example_world\<lparr>detectionInterval := None\<rparr>))))
     = Some 60"
proof -
  have p: "parseInt10 ''5'' = Some 5" "parseInt10 ''15'' = Some 15"
    by (simp_all add: parseInt10_def is_ws_def is_digit_def digit_val_def)
  have ok: "storage_set_ok example_host"
    by (simp add: example_host_def)
  have m: "messages (onStartup example_host (example_world\<lparr>detectionInterval := None\<rparr>)) = []"
    by (simp add: onStartup_def checkPersistedTimers_def updateBadgeCount_def
        showRecordingBadge_def Let_def example_world_def example_host_def example_timers_def)
  show ?thesis
    by (simp add: detectionInterval_armed detectionInterval_updateBadgeCount
        saveFeatures_def Let_def p ok m example_form_def)
qed

end
